theory Spec2Isabelle
  imports Complex_Main "HOL-Library.Signed_Division"
begin

section \<open>Conventions of the embedding\<close>

text \<open>
  The repository holds two variants of one terminal animation: \<^verbatim>\<open>ematrix.c\<close> (one colour
  mode) and a second file with an additional "black hole" colour mode. Names ending in
  \<open>_e\<close> embed the first file, names ending in \<open>_p\<close> the second; functions that are
  textually identical in both files (\<^verbatim>\<open>frandf\<close>, \<^verbatim>\<open>rand_char\<close>, \<^verbatim>\<open>expA\<close>,
  \<^verbatim>\<open>now_seconds\<close>) are embedded once.

  \<^item> C \<^verbatim>\<open>float\<close> values are read as real numbers and the operations on them as the exact
    real operations: a literal such as \<^verbatim>\<open>0.76f\<close> denotes the decimal it spells, and
    \<^verbatim>\<open>expf\<close>, \<^verbatim>\<open>cosf\<close>, \<^verbatim>\<open>sinf\<close>, \<^verbatim>\<open>sqrtf\<close> are \<open>exp\<close>, \<open>cos\<close>, \<open>sin\<close>, \<open>sqrt\<close>.
    Rounding error, infinities and NaN are outside this embedding.
  \<^item> C \<^verbatim>\<open>int\<close> and \<^verbatim>\<open>long\<close> values are read as unbounded integers. The terminal sizes
    come from curses, whose size type is \<^verbatim>\<open>short\<close>, so \<^verbatim>\<open>rows * cols\<close> stays below
    \<open>2^31\<close>.
  \<^item> \<^verbatim>\<open>rand()\<close> and the monotonic clock are oracles: the world carries one infinite
    sequence for each, and a read position that every call advances.
\<close>

type_synonym cfloat = real

subsection \<open>The world: random source and clock\<close>

record world =
  rnd :: "nat \<Rightarrow> nat"
  ri :: nat
  clk :: "nat \<Rightarrow> cfloat"
  ci :: nat

text \<open>\<^verbatim>\<open>RAND_MAX\<close> of the C library the build line targets (glibc).\<close>

definition RAND_MAX :: nat where
  "RAND_MAX = 2147483647"

text \<open>\<^verbatim>\<open>rand()\<close>: the next value of the sequence, in \<open>0..RAND_MAX\<close>.\<close>

definition rand :: "world \<Rightarrow> nat \<times> world" where
  "rand w = (rnd w (ri w) mod Suc RAND_MAX, w\<lparr>ri := Suc (ri w)\<rparr>)"

text \<open>\<^verbatim>\<open>now_seconds()\<close>: the next reading of the clock.\<close>

definition now_seconds :: "world \<Rightarrow> cfloat \<times> world" where
  "now_seconds w = (clk w (ci w), w\<lparr>ci := Suc (ci w)\<rparr>)"

subsection \<open>Particles\<close>

record Particle =
  vx0 :: cfloat
  vy0 :: cfloat
  born :: cfloat
  ch :: char

text \<open>\<^verbatim>\<open>a + (b - a) * (float)rand() / (float)RAND_MAX\<close>\<close>

definition frandf :: "cfloat \<Rightarrow> cfloat \<Rightarrow> world \<Rightarrow> cfloat \<times> world" where
  "frandf a b w =
     (let (k, w') = rand w
      in (a + (b - a) * real k / real RAND_MAX, w'))"

definition charset :: string where
  "charset = ''0123456789ABCDEFGHIJKLMNOPQRSTUVWXYZabcdefghijklmnopqrstuvwxyz@#$%&*+=-''"

text \<open>\<^verbatim>\<open>set[rand() % (int)strlen(set)]\<close>\<close>

definition rand_char :: "world \<Rightarrow> char \<times> world" where
  "rand_char w =
     (let (k, w') = rand w
      in (charset ! (k mod length charset), w'))"

subsection \<open>Trajectory evaluator\<close>

record mat2 =
  m00 :: cfloat
  m01 :: cfloat
  m10 :: cfloat
  m11 :: cfloat

definition expA :: "cfloat \<Rightarrow> mat2" where
  "expA t =
     (let w = 0.8660254037844386;
          et = exp (- 0.5 * t);
          c = cos (w * t);
          s = sin (w * t);
          k = (if \<bar>w\<bar> < 1 / 10 ^ 8 then t else s / w);
          B00 = - 0.5; B01 = - 1; B10 = 1; B11 = 0.5
      in \<lparr>m00 = et * (c + k * B00),
          m01 = et * (k * B01),
          m10 = et * (k * B10),
          m11 = et * (c + k * B11)\<rparr>)"

definition det2 :: "mat2 \<Rightarrow> cfloat" where
  "det2 M = m00 M * m11 M - m01 M * m10 M"

subsection \<open>Respawn policy\<close>

text \<open>
  \<^verbatim>\<open>respawn(Particle *p, int cols, int rows)\<close> of \<^verbatim>\<open>ematrix.c\<close>: the outer radius is
  \<^verbatim>\<open>maxr * 0.95f\<close>. The statements run in the order of the source: radius, angle, clock,
  glyph.
\<close>

definition respawn_e :: "Particle \<Rightarrow> int \<Rightarrow> int \<Rightarrow> world \<Rightarrow> Particle \<times> world" where
  "respawn_e p ncols nrows w =
     (let cx = real_of_int (ncols - 1) * 0.5;
          cy = real_of_int (nrows - 1) * 0.5;
          maxr = min cx cy;
          (r, w1) = frandf (maxr * 0.35) (maxr * 0.95) w;
          (a, w2) = frandf 0 (2 * pi) w1;
          (t, w3) = now_seconds w2;
          (c, w4) = rand_char w3
      in (p\<lparr>vx0 := r * cos a, vy0 := r * sin a, born := t, ch := c\<rparr>, w4))"

text \<open>The same function in the second file: the outer radius is \<^verbatim>\<open>maxr * 2.95f\<close>.\<close>

definition respawn_p :: "Particle \<Rightarrow> int \<Rightarrow> int \<Rightarrow> world \<Rightarrow> Particle \<times> world" where
  "respawn_p p ncols nrows w =
     (let cx = real_of_int (ncols - 1) * 0.5;
          cy = real_of_int (nrows - 1) * 0.5;
          maxr = min cx cy;
          (r, w1) = frandf (maxr * 0.35) (maxr * 2.95) w;
          (a, w2) = frandf 0 (2 * pi) w1;
          (t, w3) = now_seconds w2;
          (c, w4) = rand_char w3
      in (p\<lparr>vx0 := r * cos a, vy0 := r * sin a, born := t, ch := c\<rparr>, w4))"

subsection \<open>Tunables of \<^verbatim>\<open>main\<close>\<close>

definition SCALE :: cfloat where "SCALE = 0.76"
definition RADIUS_MULT :: cfloat where "RADIUS_MULT = 2.0"
definition X_MULT :: cfloat where "X_MULT = 2.0"
definition Y_MULT :: cfloat where "Y_MULT = 1.0"
definition SPEED :: cfloat where "SPEED = 1.35"
definition MIN_R :: cfloat where "MIN_R = 3.0"
definition FPS_US_e :: int where "FPS_US_e = 8250"
definition FPS_US_p :: int where "FPS_US_p = 3280"

subsection \<open>The terminal surface\<close>

text \<open>Colour numbers of \<^verbatim>\<open>ncurses.h\<close>.\<close>

definition COLOR_BLACK :: int where "COLOR_BLACK = 0"
definition COLOR_RED :: int where "COLOR_RED = 1"
definition COLOR_GREEN :: int where "COLOR_GREEN = 2"
definition COLOR_YELLOW :: int where "COLOR_YELLOW = 3"
definition COLOR_BLUE :: int where "COLOR_BLUE = 4"
definition COLOR_MAGENTA :: int where "COLOR_MAGENTA = 5"
definition COLOR_CYAN :: int where "COLOR_CYAN = 6"
definition COLOR_WHITE :: int where "COLOR_WHITE = 7"

datatype attr = COLOR_PAIR int | A_BOLD | A_DIM | A_BLINK

text \<open>
  The calls the program makes on the outside, in the order it makes them. \<open>Mvaddch y x c\<close>
  is the one draw call; \<open>Free\<close> is the release of the swarm's storage.
\<close>

datatype effect =
    Initscr | Noecho | Curs_set int | Keypad bool | Nodelay bool | Timeout int
  | Start_color | Use_default_colors | Init_pair int int int
  | Clear | Erase | Attron attr | Attroff attr | Mvaddch int int char
  | Refresh | Usleep int | Free | Endwin

text \<open>
  What the process is given from outside: the answers of \<^verbatim>\<open>has_colors()\<close> and
  \<^verbatim>\<open>COLORS\<close>, whether \<^verbatim>\<open>calloc\<close> succeeds, and the size \<^verbatim>\<open>getmaxyx\<close> reports at start.
  Each loop iteration reads one key (\<^verbatim>\<open>getch()\<close>) and one size (\<^verbatim>\<open>getmaxyx\<close>).
\<close>

record env =
  has_colors :: bool
  COLORS :: int
  calloc_ok :: bool
  rows0 :: int
  cols0 :: int

record input =
  key :: int
  newr :: int
  newc :: int

text \<open>The locals of \<^verbatim>\<open>main\<close> that live across loop iterations, with the world.\<close>

record state =
  st_rows :: int
  st_cols :: int
  st_N :: int
  st_P :: "Particle list"
  st_world :: world

record state_p = state +
  st_bh_mode :: int

datatype 'a outcome = Exited int | Running 'a

subsection \<open>Frame renderer: position of one particle\<close>

text \<open>
  The screen centre, \<^verbatim>\<open>(cols - 1) * 0.5f\<close> and \<^verbatim>\<open>(rows - 1) * 0.5f\<close>, taken once per
  frame.
\<close>

definition centre_x :: "int \<Rightarrow> cfloat" where
  "centre_x ncols = real_of_int (ncols - 1) * 0.5"

definition centre_y :: "int \<Rightarrow> cfloat" where
  "centre_y nrows = real_of_int (nrows - 1) * 0.5"

text \<open>\<^verbatim>\<open>lroundf\<close>: to the nearest integer, halfway cases away from zero.\<close>

definition lroundf :: "cfloat \<Rightarrow> int" where
  "lroundf v = (if 0 \<le> v then \<lfloor>v + 1 / 2\<rfloor> else \<lceil>v - 1 / 2\<rceil>)"

text \<open>What the loop body computes for a particle before it decides anything.\<close>

record placed =
  k_age :: cfloat
  k_vx :: cfloat
  k_vy :: cfloat
  k_r :: cfloat
  k_fx :: cfloat
  k_fy :: cfloat
  k_x :: int
  k_y :: int

definition kinematics :: "cfloat \<Rightarrow> cfloat \<Rightarrow> cfloat \<Rightarrow> Particle \<Rightarrow> placed" where
  "kinematics cx cy tnow p =
     (let age = (tnow - born p) * SPEED;
          M = expA age;
          vx = RADIUS_MULT * SCALE * (m00 M * vx0 p + m01 M * vy0 p);
          vy = RADIUS_MULT * SCALE * (m10 M * vx0 p + m11 M * vy0 p);
          sx = X_MULT * vx;
          sy = Y_MULT * vy;
          r = sqrt (vx * vx + vy * vy)
      in \<lparr>k_age = age, k_vx = vx, k_vy = vy, k_r = r,
          k_fx = cx + sx, k_fy = cy + sy,
          k_x = lroundf (cx + sx), k_y = lroundf (cy + sy)\<rparr>)"

text \<open>\<^verbatim>\<open>if ((rand() % 28) == 0) P[i].ch = rand_char();\<close>\<close>

definition mutate :: "Particle \<Rightarrow> world \<Rightarrow> Particle \<times> world" where
  "mutate p w =
     (let (q, w1) = rand w
      in if q mod 28 = 0
         then (let (c, w2) = rand_char w1 in (p\<lparr>ch := c\<rparr>, w2))
         else (p, w1))"

text \<open>The green draw, brighter with age; the same text in both files.\<close>

definition trail :: "cfloat \<Rightarrow> int \<Rightarrow> int \<Rightarrow> char \<Rightarrow> effect list" where
  "trail age y x c =
     (let a = min (age / 2) 1
      in [Attron (COLOR_PAIR 1)]
         @ (if a > 0.66 then [Attron A_BOLD] else [])
         @ [Mvaddch y x c]
         @ (if a > 0.66 then [Attroff A_BOLD] else [])
         @ [Attroff (COLOR_PAIR 1)])"

subsection \<open>Frame renderer and main loop of \<^verbatim>\<open>ematrix.c\<close>\<close>

definition step_e ::
  "env \<Rightarrow> int \<Rightarrow> int \<Rightarrow> cfloat \<Rightarrow> cfloat \<Rightarrow> cfloat \<Rightarrow> Particle \<Rightarrow> world
     \<Rightarrow> Particle \<times> effect list \<times> world" where
  "step_e ev ncols nrows cx cy tnow p w =
     (let k = kinematics cx cy tnow p
      in if k_r k < MIN_R \<or> k_x k < 0 \<or> k_x k \<ge> ncols \<or> k_y k < 0 \<or> k_y k \<ge> nrows
         then (let (p', w') = respawn_e p ncols nrows w in (p', [], w'))
         else (let (p1, w1) = mutate p w
               in (p1,
                   if has_colors ev then trail (k_age k) (k_y k) (k_x k) (ch p1)
                   else [Mvaddch (k_y k) (k_x k) (ch p1)],
                   w1)))"

text \<open>\<^verbatim>\<open>for (int i = 0; i < N; i++) respawn(&P[i], cols, rows);\<close>\<close>

definition respawn_all_e ::
  "int \<Rightarrow> int \<Rightarrow> int \<Rightarrow> Particle list \<Rightarrow> world \<Rightarrow> Particle list \<times> world" where
  "respawn_all_e ncols nrows n ps w =
     fold (\<lambda>i (qs, v). let (p', v') = respawn_e (qs ! i) ncols nrows v in (qs[i := p'], v'))
          [0..<nat n] (ps, w)"

text \<open>The \<^verbatim>\<open>for\<close> loop over the swarm inside one frame.\<close>

definition render_e ::
  "env \<Rightarrow> int \<Rightarrow> int \<Rightarrow> cfloat \<Rightarrow> cfloat \<Rightarrow> cfloat \<Rightarrow> int \<Rightarrow> Particle list \<Rightarrow> world
     \<Rightarrow> Particle list \<times> effect list \<times> world" where
  "render_e ev ncols nrows cx cy tnow n ps w =
     fold (\<lambda>i (qs, out, v).
             let (p', calls, v') = step_e ev ncols nrows cx cy tnow (qs ! i) v
             in (qs[i := p'], out @ calls, v'))
          [0..<nat n] (ps, [], w)"

text \<open>One loop iteration after the quit test: resize, clock, frame, flush, sleep.\<close>

definition frame_e :: "env \<Rightarrow> input \<Rightarrow> state \<Rightarrow> effect list \<times> state" where
  "frame_e ev inp s =
     (let (s1, out1) =
            (if newr inp \<noteq> st_rows s \<or> newc inp \<noteq> st_cols s
             then (let (ps, v) = respawn_all_e (newc inp) (newr inp) (st_N s) (st_P s) (st_world s)
                   in (s\<lparr>st_rows := newr inp, st_cols := newc inp, st_P := ps, st_world := v\<rparr>,
                       [Clear]))
             else (s, []));
          cx = centre_x (st_cols s1);
          cy = centre_y (st_rows s1);
          (tnow, w1) = now_seconds (st_world s1);
          (ps, out2, w2) = render_e ev (st_cols s1) (st_rows s1) cx cy tnow (st_N s1) (st_P s1) w1
      in (out1 @ [Erase] @ out2 @ [Refresh, Usleep FPS_US_e],
          s1\<lparr>st_P := ps, st_world := w2\<rparr>))"

text \<open>Key codes: \<^verbatim>\<open>'q'\<close>, \<^verbatim>\<open>'Q'\<close>, \<^verbatim>\<open>'r'\<close>, \<^verbatim>\<open>'R'\<close>.\<close>

definition KEY_q :: int where "KEY_q = 113"
definition KEY_Q :: int where "KEY_Q = 81"
definition KEY_r :: int where "KEY_r = 114"
definition KEY_R :: int where "KEY_R = 82"

text \<open>
  \<^verbatim>\<open>while (1)\<close> on a finite prefix of the inputs: the loop leaves only on the quit key,
  then frees the swarm, ends curses and returns 0. When the prefix is used up the
  process is still running, in the state returned.
\<close>

fun run_e :: "env \<Rightarrow> input list \<Rightarrow> state \<Rightarrow> effect list \<times> state outcome" where
  "run_e ev [] s = ([], Running s)"
| "run_e ev (inp # inps) s =
     (if key inp = KEY_q \<or> key inp = KEY_Q then ([Free, Endwin], Exited 0)
      else (let (out, s') = frame_e ev inp s;
                (out', res) = run_e ev inps s'
            in (out @ out', res)))"

text \<open>The curses setup both files start with.\<close>

definition setup_green :: "bool \<Rightarrow> effect list" where
  "setup_green colours =
     [Initscr, Noecho, Curs_set 0, Keypad True, Nodelay True, Timeout 0]
     @ (if colours
        then [Start_color, Use_default_colors,
              Init_pair 1 COLOR_GREEN (- 1), Init_pair 2 COLOR_GREEN (- 1),
              Init_pair 3 COLOR_GREEN (- 1)]
        else [])"

text \<open>What \<^verbatim>\<open>calloc\<close> returns on success: \<open>n\<close> zeroed particles.\<close>

definition calloc_particles :: "int \<Rightarrow> Particle list" where
  "calloc_particles n = replicate (nat n) \<lparr>vx0 = 0, vy0 = 0, born = 0, ch = CHR 0x00\<rparr>"

text \<open>
  \<^verbatim>\<open>main\<close> of \<^verbatim>\<open>ematrix.c\<close>. The seed \<^verbatim>\<open>srand(time(NULL))\<close> is part of the choice of
  the world's random sequence. \<^verbatim>\<open>/\<close> on \<^verbatim>\<open>int\<close> truncates towards zero (\<open>sdiv\<close>).
\<close>

definition swarm_size_e :: "int \<Rightarrow> int \<Rightarrow> int" where
  "swarm_size_e nrows ncols =
     (let n0 = (nrows * ncols) sdiv 12 in if n0 < 200 then 200 else n0)"

definition start_e :: "env \<Rightarrow> world \<Rightarrow> state" where
  "start_e ev w =
     (let nrows = rows0 ev;
          ncols = cols0 ev;
          n = swarm_size_e nrows ncols;
          (ps, w1) = respawn_all_e ncols nrows n (calloc_particles n) w
      in \<lparr>st_rows = nrows, st_cols = ncols, st_N = n, st_P = ps, st_world = w1\<rparr>)"

definition main_e :: "env \<Rightarrow> world \<Rightarrow> input list \<Rightarrow> effect list \<times> state outcome" where
  "main_e ev w inps =
     (let pre = setup_green (has_colors ev)
      in if \<not> calloc_ok ev then (pre @ [Endwin], Exited 1)
         else (let (out, res) = run_e ev inps (start_e ev w)
               in (pre @ out, res)))"

subsection \<open>The second file: black-hole colour mode\<close>

text \<open>The cast \<^verbatim>\<open>(int)\<close> of a float: truncation towards zero.\<close>

definition ctrunc :: "cfloat \<Rightarrow> int" where
  "ctrunc v = (if 0 \<le> v then \<lfloor>v\<rfloor> else \<lceil>v\<rceil>)"

text \<open>\<^verbatim>\<open>fmodf\<close>: the remainder with the sign of the dividend.\<close>

definition fmodf :: "cfloat \<Rightarrow> cfloat \<Rightarrow> cfloat" where
  "fmodf v d = v - d * real_of_int (ctrunc (v / d))"

text \<open>\<^verbatim>\<open>!x\<close> on \<^verbatim>\<open>int\<close>.\<close>

definition cnot :: "int \<Rightarrow> int" where
  "cnot v = (if v = 0 then 1 else 0)"

definition BH_PAIR_BASE :: "env \<Rightarrow> int" where
  "BH_PAIR_BASE ev = (if has_colors ev \<and> COLORS ev \<ge> 256 then 20 else 10)"

definition BH_PAIR_COUNT :: "env \<Rightarrow> int" where
  "BH_PAIR_COUNT ev = (if has_colors ev \<and> COLORS ev \<ge> 256 then 9 else 7)"

text \<open>The style the black-hole branch settles on before it draws.\<close>

record style =
  pair :: int
  do_bold :: bool
  do_dim :: bool
  do_blink :: bool
  draw_it :: bool

unbundle bit_operations_syntax

definition bh_style ::
  "env \<Rightarrow> cfloat \<Rightarrow> cfloat \<Rightarrow> placed \<Rightarrow> world \<Rightarrow> style \<times> world" where
  "bh_style ev tnow maxr_vis k w =
     (let vx = k_vx k; vy = k_vy k; r = k_r k;
          shadow_r = 0.18 * maxr_vis;
          ring_r = 0.32 * maxr_vis;
          ring_w = 0.06 * maxr_vis;
          ax = - vx - vy;
          ay = vx;
          speed = SPEED * sqrt (ax * ax + ay * ay);
          swirl = speed / (r + 1 / 10 ^ 3);
          swirl_n = min (swirl / 2) 1;
          heat = min (speed / (SPEED * (maxr_vis * 2) + 1 / 10 ^ 3)) 1;
          rr = min (r / (maxr_vis + 1 / 10 ^ 3)) 1;
          hue = fmodf (0.12 * tnow + 0.85 * swirl_n + 0.40 * rr + 0.15 * heat) 1;
          idx0 = \<lfloor>hue * real_of_int (BH_PAIR_COUNT ev)\<rfloor>;
          idx1 = (if idx0 < 0 then 0 else idx0);
          rainbow_idx = (if idx1 \<ge> BH_PAIR_COUNT ev then BH_PAIR_COUNT ev - 1 else idx1);
          rainbow_pair = BH_PAIR_BASE ev + rainbow_idx;
          white_pair = BH_PAIR_BASE ev + (BH_PAIR_COUNT ev - 1);
          st0 = \<lparr>pair = rainbow_pair, do_bold = False, do_dim = False, do_blink = False,
                 draw_it = True\<rparr>
      in if r < shadow_r
         then (let (q, w1) = rand w
               in if q AND 3 \<noteq> 0 then (st0\<lparr>draw_it := False\<rparr>, w1)
                  else (st0\<lparr>pair := BH_PAIR_BASE ev, do_dim := True\<rparr>, w1))
         else (let ring_thick = ring_w * (0.6 + 0.8 * swirl_n)
               in if \<bar>r - ring_r\<bar> < ring_thick
                  then (st0\<lparr>pair := (if ctrunc (tnow * 14) AND 1 \<noteq> 0 \<or> swirl_n > 0.55
                                      then white_pair else rainbow_pair),
                             do_bold := True,
                             do_blink := (swirl_n > 0.75)\<rparr>, w)
                  else (let t = 0.60 * heat + 0.40 * swirl_n;
                            (st1, w1) =
                              (if t > 0.85
                               then (let (q, v) = rand w
                                     in if q mod 10 = 0
                                        then (st0\<lparr>do_bold := True, pair := white_pair,
                                                   do_blink := True\<rparr>, v)
                                        else (st0\<lparr>do_bold := True\<rparr>, v))
                               else if t > 0.65 then (st0\<lparr>do_bold := True\<rparr>, w)
                               else if t < 0.25 then (st0\<lparr>do_dim := True\<rparr>, w)
                               else (st0, w));
                            (q2, w2) = rand w1
                        in if q2 AND 127 = 0
                           then (st1\<lparr>pair := white_pair, do_bold := True, do_blink := True\<rparr>, w2)
                           else (st1, w2))))"

text \<open>\<^verbatim>\<open>if (draw_it) { attron ... mvaddch ... attroff ... }\<close>\<close>

definition bh_draw :: "style \<Rightarrow> int \<Rightarrow> int \<Rightarrow> char \<Rightarrow> effect list" where
  "bh_draw st y x c =
     (if draw_it st
      then [Attron (COLOR_PAIR (pair st))]
           @ (if do_bold st then [Attron A_BOLD] else [])
           @ (if do_dim st then [Attron A_DIM] else [])
           @ (if do_blink st then [Attron A_BLINK] else [])
           @ [Mvaddch y x c]
           @ (if do_blink st then [Attroff A_BLINK] else [])
           @ (if do_dim st then [Attroff A_DIM] else [])
           @ (if do_bold st then [Attroff A_BOLD] else [])
           @ [Attroff (COLOR_PAIR (pair st))]
      else [])"

definition step_p ::
  "env \<Rightarrow> int \<Rightarrow> int \<Rightarrow> int \<Rightarrow> cfloat \<Rightarrow> cfloat \<Rightarrow> cfloat \<Rightarrow> cfloat \<Rightarrow> Particle \<Rightarrow> world
     \<Rightarrow> Particle \<times> effect list \<times> world" where
  "step_p ev bh ncols nrows cx cy maxr_vis tnow p w =
     (let k = kinematics cx cy tnow p
      in if k_r k < MIN_R \<or> k_x k < 0 \<or> k_x k \<ge> ncols \<or> k_y k < 0 \<or> k_y k \<ge> nrows
         then (let (p', w') = respawn_p p ncols nrows w in (p', [], w'))
         else (let (p1, w1) = mutate p w
               in if has_colors ev
                  then (if cnot bh \<noteq> 0
                        then (p1, trail (k_age k) (k_y k) (k_x k) (ch p1), w1)
                        else (let (st, w2) = bh_style ev tnow maxr_vis k w1
                              in (p1, bh_draw st (k_y k) (k_x k) (ch p1), w2)))
                  else (p1, [Mvaddch (k_y k) (k_x k) (ch p1)], w1)))"

definition respawn_all_p ::
  "int \<Rightarrow> int \<Rightarrow> int \<Rightarrow> Particle list \<Rightarrow> world \<Rightarrow> Particle list \<times> world" where
  "respawn_all_p ncols nrows n ps w =
     fold (\<lambda>i (qs, v). let (p', v') = respawn_p (qs ! i) ncols nrows v in (qs[i := p'], v'))
          [0..<nat n] (ps, w)"

definition render_p ::
  "env \<Rightarrow> int \<Rightarrow> int \<Rightarrow> int \<Rightarrow> cfloat \<Rightarrow> cfloat \<Rightarrow> cfloat \<Rightarrow> cfloat \<Rightarrow> int \<Rightarrow> Particle list
     \<Rightarrow> world \<Rightarrow> Particle list \<times> effect list \<times> world" where
  "render_p ev bh ncols nrows cx cy maxr_vis tnow n ps w =
     fold (\<lambda>i (qs, out, v).
             let (p', calls, v') = step_p ev bh ncols nrows cx cy maxr_vis tnow (qs ! i) v
             in (qs[i := p'], out @ calls, v'))
          [0..<nat n] (ps, [], w)"

definition frame_p :: "env \<Rightarrow> input \<Rightarrow> state_p \<Rightarrow> effect list \<times> state_p" where
  "frame_p ev inp s =
     (let (s1, out1) =
            (if newr inp \<noteq> st_rows s \<or> newc inp \<noteq> st_cols s
             then (let (ps, v) = respawn_all_p (newc inp) (newr inp) (st_N s) (st_P s) (st_world s)
                   in (s\<lparr>st_rows := newr inp, st_cols := newc inp, st_P := ps, st_world := v\<rparr>,
                       [Clear]))
             else (s, []));
          cx = centre_x (st_cols s1);
          cy = centre_y (st_rows s1);
          maxr_vis = min (cx / X_MULT) (cy / Y_MULT);
          (tnow, w1) = now_seconds (st_world s1);
          (ps, out2, w2) =
            render_p ev (st_bh_mode s1) (st_cols s1) (st_rows s1) cx cy maxr_vis tnow
              (st_N s1) (st_P s1) w1
      in (out1 @ [Erase] @ out2 @ [Refresh, Usleep FPS_US_p],
          s1\<lparr>st_P := ps, st_world := w2\<rparr>))"

text \<open>\<^verbatim>\<open>if (ch == 'r' || ch == 'R') bh_mode = !bh_mode;\<close>\<close>

definition toggle :: "int \<Rightarrow> state_p \<Rightarrow> state_p" where
  "toggle c s =
     (if c = KEY_r \<or> c = KEY_R then s\<lparr>st_bh_mode := cnot (st_bh_mode s)\<rparr> else s)"

fun run_p :: "env \<Rightarrow> input list \<Rightarrow> state_p \<Rightarrow> effect list \<times> state_p outcome" where
  "run_p ev [] s = ([], Running s)"
| "run_p ev (inp # inps) s =
     (if key inp = KEY_q \<or> key inp = KEY_Q then ([Free, Endwin], Exited 0)
      else (let (out, s') = frame_p ev inp (toggle (key inp) s);
                (out', res) = run_p ev inps s'
            in (out @ out', res)))"

text \<open>The rainbow pairs registered after the green ones.\<close>

definition setup_palette :: "int \<Rightarrow> effect list" where
  "setup_palette ncolors =
     (if ncolors \<ge> 256
      then map (\<lambda>i. Init_pair (20 + int i) ([21, 51, 46, 226, 202, 196, 201, 93, 231] ! i) COLOR_BLACK)
             [0..<9]
      else map (\<lambda>i. Init_pair (10 + int i)
                  ([COLOR_BLUE, COLOR_CYAN, COLOR_GREEN, COLOR_YELLOW, COLOR_RED, COLOR_MAGENTA,
                    COLOR_WHITE] ! i) COLOR_BLACK)
             [0..<7])"

definition swarm_size_p :: "int \<Rightarrow> int \<Rightarrow> int" where
  "swarm_size_p nrows ncols =
     (let n0 = (nrows * ncols) sdiv 20 in if n0 < 200 then 200 else n0)"

definition start_p :: "env \<Rightarrow> world \<Rightarrow> state_p" where
  "start_p ev w =
     (let nrows = rows0 ev;
          ncols = cols0 ev;
          n = swarm_size_p nrows ncols;
          (ps, w1) = respawn_all_p ncols nrows n (calloc_particles n) w
      in \<lparr>st_rows = nrows, st_cols = ncols, st_N = n, st_P = ps, st_world = w1,
          st_bh_mode = 0\<rparr>)"

definition main_p :: "env \<Rightarrow> world \<Rightarrow> input list \<Rightarrow> effect list \<times> state_p outcome" where
  "main_p ev w inps =
     (let pre = setup_green (has_colors ev)
                @ (if has_colors ev then setup_palette (COLORS ev) else [])
      in if \<not> calloc_ok ev then (pre @ [Endwin], Exited 1)
         else (let (out, res) = run_p ev inps (start_p ev w)
               in (pre @ out, res)))"

subsection \<open>Sample inputs\<close>

text \<open>A world whose random source and clock always answer 0.\<close>

definition quiet_world :: world where
  "quiet_world = \<lparr>rnd = (\<lambda>_. 0), ri = 0, clk = (\<lambda>_. 0), ci = 0\<rparr>"

text \<open>
  A world whose first \<^verbatim>\<open>rand()\<close> is \<^verbatim>\<open>RAND_MAX\<close> and every later one 0: the next respawn
  takes the outer radius of the annulus at angle 0.
\<close>

definition edge_world :: world where
  "edge_world = \<lparr>rnd = (\<lambda>i. if i = 0 then RAND_MAX else 0), ri = 0, clk = (\<lambda>_. 0), ci = 0\<rparr>"

text \<open>A world whose second \<^verbatim>\<open>rand()\<close>, the one a respawn uses for the angle, is \<open>k\<close>.\<close>

definition dial_world :: "nat \<Rightarrow> world" where
  "dial_world k = \<lparr>rnd = (\<lambda>i. if i = 1 then k else 0), ri = 0, clk = (\<lambda>_. 0), ci = 0\<rparr>"

definition still_particle :: Particle where
  "still_particle = \<lparr>vx0 = 0, vy0 = 0, born = 0, ch = CHR ''0''\<rparr>"

text \<open>An 80 x 24 colour terminal; in \<open>no_memory\<close> the allocation fails.\<close>

definition vt80x24 :: env where
  "vt80x24 = \<lparr>has_colors = True, COLORS = 256, calloc_ok = True, rows0 = 24, cols0 = 80\<rparr>"

definition no_memory :: env where
  "no_memory = \<lparr>has_colors = True, COLORS = 256, calloc_ok = False, rows0 = 24, cols0 = 80\<rparr>"

text \<open>One loop iteration's input: no key (\<^verbatim>\<open>ERR\<close>), a key, a resize to 200 x 60.\<close>

definition idle :: input where
  "idle = \<lparr>key = - 1, newr = 24, newc = 80\<rparr>"

definition press :: "int \<Rightarrow> input" where
  "press c = \<lparr>key = c, newr = 24, newc = 80\<rparr>"

definition grow :: input where
  "grow = \<lparr>key = - 1, newr = 60, newc = 200\<rparr>"

section \<open>Trajectory evaluator\<close>

text \<open>
  Claim C3. At \<open>t = 0\<close> the trajectory evaluator returns the identity matrix: both
  diagonal entries are 1 and both off-diagonal entries are 0.
\<close>

theorem expA_zero_identity:
  "expA 0 = \<lparr>m00 = 1, m01 = 0, m10 = 0, m11 = 1\<rparr>"
  by (simp add: expA_def Let_def)

section \<open>Position of a particle at age 0\<close>

lemma sqrt_scaled:
  assumes "0 \<le> c"
  shows "sqrt (c * a * (c * a) + c * b * (c * b)) = c * sqrt (a\<^sup>2 + b\<^sup>2)"
proof -
  have "c * a * (c * a) + c * b * (c * b) = c\<^sup>2 * (a\<^sup>2 + b\<^sup>2)"
    by (simp add: power2_eq_square algebra_simps)
  then have "sqrt (c * a * (c * a) + c * b * (c * b)) = sqrt (c\<^sup>2) * sqrt (a\<^sup>2 + b\<^sup>2)"
    by (simp only: real_sqrt_mult)
  with assms show ?thesis by simp
qed

lemma kinematics_age0:
  "kinematics cx cy (born p) p =
     \<lparr>k_age = 0, k_vx = RADIUS_MULT * SCALE * vx0 p, k_vy = RADIUS_MULT * SCALE * vy0 p,
      k_r = RADIUS_MULT * SCALE * sqrt ((vx0 p)\<^sup>2 + (vy0 p)\<^sup>2),
      k_fx = cx + X_MULT * (RADIUS_MULT * SCALE * vx0 p),
      k_fy = cy + Y_MULT * (RADIUS_MULT * SCALE * vy0 p),
      k_x = lroundf (cx + X_MULT * (RADIUS_MULT * SCALE * vx0 p)),
      k_y = lroundf (cy + Y_MULT * (RADIUS_MULT * SCALE * vy0 p))\<rparr>"
proof -
  have c: "0 \<le> RADIUS_MULT * SCALE"
    by (simp add: RADIUS_MULT_def SCALE_def)
  have m: "expA 0 = \<lparr>m00 = 1, m01 = 0, m10 = 0, m11 = 1\<rparr>"
    by (simp add: expA_def Let_def)
  show ?thesis
    unfolding kinematics_def Let_def by (simp add: m sqrt_scaled [OF c])
qed

text \<open>
  Claim C4. On an 80 x 24 terminal (centre \<open>(39.5, 11.5)\<close>), with speed 1.35, scale 0.76
  and radius multiplier 2, a particle with launch vector \<open>(10, 0)\<close> evaluated at the
  instant of its birth has age 0 and the unrounded screen position
  \<open>(39.5 + 2 * 0.76 * 10 * X_MULT, 11.5)\<close>: \<open>15.2 * X_MULT\<close> to the right of the centre
  and on its row.
\<close>

theorem scenario_80x24:
  "SPEED = 1.35 \<and> SCALE = 0.76 \<and> RADIUS_MULT = 2
   \<and> centre_x 80 = 39.5 \<and> centre_y 24 = 11.5
   \<and> (let k = kinematics (centre_x 80) (centre_y 24) t \<lparr>vx0 = 10, vy0 = 0, born = t, ch = c\<rparr>
      in k_age k = 0
         \<and> k_fx k = 39.5 + 2 * 0.76 * 10 * X_MULT
         \<and> k_fx k = centre_x 80 + 15.2 * X_MULT
         \<and> k_fy k = 11.5 \<and> k_fy k = centre_y 24)"
  by (simp add: kinematics_def Let_def expA_def SPEED_def SCALE_def RADIUS_MULT_def
      X_MULT_def Y_MULT_def centre_x_def centre_y_def)

section \<open>Glyphs\<close>

lemma rand_le: "fst (rand w) \<le> RAND_MAX"
  by (simp add: rand_def less_Suc_eq_le [symmetric] del: mod_Suc_le_divisor)

lemma charset_length: "length charset = 71"
  by (simp add: charset_def)

lemma charset_distinct: "distinct charset"
  by (simp add: charset_def)

text \<open>
  How many of the \<open>2^31\<close> values of \<^verbatim>\<open>rand()\<close> select the glyph at index \<open>i\<close>:
  \<open>2^31 = 71 * 30246248 + 40\<close>, so the first 40 indices get one value more.
\<close>

lemma residue_count:
  assumes "i < 71"
  shows "card {k. k \<le> RAND_MAX \<and> k mod 71 = i} = (if i < 40 then 30246249 else 30246248)"
proof -
  define c :: nat where "c = (if i < 40 then 30246249 else 30246248)"
  have "{k. k \<le> RAND_MAX \<and> k mod 71 = i} = (\<lambda>q. 71 * q + i) ` {..<c}"
  proof (intro set_eqI iffI)
    fix k assume "k \<in> {k. k \<le> RAND_MAX \<and> k mod 71 = i}"
    then have k: "k \<le> 2147483647" "k mod 71 = i" by (simp_all add: RAND_MAX_def)
    have d: "k = 71 * (k div 71) + i" using k(2) by (metis mult_div_mod_eq)
    have "k div 71 < c" using k(1) d assms unfolding c_def by (cases "i < 40") simp_all
    with d show "k \<in> (\<lambda>q. 71 * q + i) ` {..<c}" by blast
  next
    fix k assume "k \<in> (\<lambda>q. 71 * q + i) ` {..<c}"
    then obtain q where q: "q < c" "k = 71 * q + i" by blast
    have "k \<le> 2147483647" using q assms unfolding c_def by (cases "i < 40") simp_all
    moreover have "k mod 71 = i" using q(2) assms by simp
    ultimately show "k \<in> {k. k \<le> RAND_MAX \<and> k mod 71 = i}" by (simp add: RAND_MAX_def)
  qed
  moreover have "inj_on (\<lambda>q. 71 * q + i) {..<c}" by (simp add: inj_on_def)
  ultimately have "card {k. k \<le> RAND_MAX \<and> k mod 71 = i} = card {..<c}"
    by (simp add: card_image)
  then show ?thesis by (simp add: c_def)
qed

text \<open>
  Claim C6, as stated, fails: the glyph set has 71 characters (10 digits, 26 capitals,
  26 small letters, 9 symbols), not 74.
\<close>

theorem charset_not_74: "card (set charset) = 71 \<and> card (set charset) \<noteq> 74"
  by (simp add: distinct_card [OF charset_distinct] charset_length)

lemma rand_world: "snd (rand w) = w\<lparr>ri := Suc (ri w)\<rparr>"
  by (simp add: rand_def)

lemma rand_after_clock: "fst (rand (snd (now_seconds w))) = fst (rand w)"
  by (simp add: rand_def now_seconds_def)

lemma rand_char_eq: "rand_char w = (charset ! (fst (rand w) mod 71), snd (rand w))"
  by (simp add: rand_char_def split_def Let_def charset_length)

lemma respawn_glyph_exact:
  "ch (fst (respawn_e p ncols nrows w))
     = charset ! (fst (rand (snd (rand (snd (rand w))))) mod 71)"
  "ch (fst (respawn_p p ncols nrows w))
     = charset ! (fst (rand (snd (rand (snd (rand w))))) mod 71)"
  by (simp_all add: respawn_e_def respawn_p_def frandf_def split_def Let_def rand_char_eq
      rand_after_clock)

lemma mutate_glyph_exact:
  "ch (fst (mutate p w))
     = (if fst (rand w) mod 28 = 0 then charset ! (fst (rand (snd (rand w))) mod 71) else ch p)"
  by (simp add: mutate_def split_def Let_def rand_char_eq)

lemma mutate_rest:
  "fst (mutate p w) = p\<lparr>ch := ch (fst (mutate p w))\<rparr>"
  by (simp add: mutate_def split_def Let_def)

lemma glyph_count:
  assumes "i < 71"
  shows "card {k. k \<le> RAND_MAX \<and> charset ! (k mod 71) = charset ! i}
           = (if i < 40 then 30246249 else 30246248)"
proof -
  have "charset ! (k mod 71) = charset ! i \<longleftrightarrow> k mod 71 = i" for k
    using assms charset_distinct by (simp add: nth_eq_iff_index_eq charset_length)
  then show ?thesis using residue_count [OF assms] by simp
qed


text \<open>
  Claim C6, amended. Every glyph given to a particle comes from \<^verbatim>\<open>rand_char\<close>, which
  returns \<open>charset ! (rand() mod 71)\<close>, a character of the fixed set of 71 distinct
  characters. A respawn stores the glyph selected by its third \<^verbatim>\<open>rand()\<close> (after the
  radius and the angle); the mutation, when its first \<^verbatim>\<open>rand()\<close> is a multiple of 28,
  stores the glyph selected by the next \<^verbatim>\<open>rand()\<close>, and otherwise keeps the old glyph;
  it changes no other field. Each of the 71 characters is selected by 30246249 (the
  first 40) or 30246248 (the other 31) of the \<open>2^31\<close> values \<^verbatim>\<open>rand()\<close> can return.
\<close>

theorem glyph_alphabet:
  "length charset = 71 \<and> distinct charset
   \<and> rand_char w = (charset ! (fst (rand w) mod 71), snd (rand w))
   \<and> fst (rand w) \<le> RAND_MAX
   \<and> ch (fst (respawn_e p ncols nrows w))
        = charset ! (fst (rand (snd (rand (snd (rand w))))) mod 71)
   \<and> ch (fst (respawn_p p ncols nrows w))
        = charset ! (fst (rand (snd (rand (snd (rand w))))) mod 71)
   \<and> ch (fst (mutate p w))
        = (if fst (rand w) mod 28 = 0 then charset ! (fst (rand (snd (rand w))) mod 71)
           else ch p)
   \<and> fst (mutate p w) = p\<lparr>ch := ch (fst (mutate p w))\<rparr>
   \<and> (i < 71 \<longrightarrow> card {k. k \<le> RAND_MAX \<and> charset ! (k mod 71) = charset ! i}
                     = (if i < 40 then 30246249 else 30246248))"
  using glyph_count [of i] mutate_rest [of p w]
  by (simp add: charset_length charset_distinct rand_char_eq rand_le respawn_glyph_exact
      mutate_glyph_exact)

theorem glyph_alphabet_witness:
  "(0::nat) < 71
   \<and> card {k. k \<le> RAND_MAX \<and> charset ! (k mod 71) = charset ! 0} = 30246249
   \<and> ch (fst (respawn_e still_particle 80 24 quiet_world))
        = charset ! (fst (rand (snd (rand (snd (rand quiet_world))))) mod 71)
   \<and> ch (fst (mutate still_particle quiet_world)) = charset ! 0"
proof -
  note t = glyph_alphabet [of quiet_world still_particle 80 24 0]
  have r: "fst (rand quiet_world) = 0" "fst (rand (snd (rand quiet_world))) = 0"
    by (simp_all add: rand_def quiet_world_def)
  from t have c: "card {k. k \<le> RAND_MAX \<and> charset ! (k mod 71) = charset ! 0} = 30246249"
    by simp
  from t have e: "ch (fst (respawn_e still_particle 80 24 quiet_world))
        = charset ! (fst (rand (snd (rand (snd (rand quiet_world))))) mod 71)"
    by blast
  from t have "ch (fst (mutate still_particle quiet_world))
        = (if fst (rand quiet_world) mod 28 = 0
           then charset ! (fst (rand (snd (rand quiet_world))) mod 71)
           else ch still_particle)"
    by blast
  then have m: "ch (fst (mutate still_particle quiet_world)) = charset ! 0"
    unfolding r by simp
  from c e m show ?thesis by simp
qed

section \<open>The loops over the swarm\<close>

text \<open>
  Both loops write only \<^verbatim>\<open>P[i]\<close>: the swarm keeps its length, the turn of particle \<open>i\<close>
  finds it as the earlier turns left it, namely untouched, and the later turns leave it
  as the turn of \<open>i\<close> did.
\<close>

lemma respawn_fold_length_e:
  "length (fst (fold (\<lambda>i (qs, v). let (p', v') = respawn_e (qs ! i) c r v in (qs[i := p'], v'))
                  js (ps, w))) = length ps"
  by (induction js arbitrary: ps w) (simp_all add: split_def Let_def)

lemma respawn_fold_length_p:
  "length (fst (fold (\<lambda>i (qs, v). let (p', v') = respawn_p (qs ! i) c r v in (qs[i := p'], v'))
                  js (ps, w))) = length ps"
  by (induction js arbitrary: ps w) (simp_all add: split_def Let_def)

lemma respawn_all_length:
  "length (fst (respawn_all_e c r n ps w)) = length ps"
  "length (fst (respawn_all_p c r n ps w)) = length ps"
  unfolding respawn_all_e_def respawn_all_p_def
  by (rule respawn_fold_length_e, rule respawn_fold_length_p)

lemma render_fold_length_e:
  "length (fst (fold (\<lambda>i (qs, out, v).
             let (p', calls, v') = step_e ev c r cx cy t (qs ! i) v
             in (qs[i := p'], out @ calls, v')) js (ps, acc, w))) = length ps"
  by (induction js arbitrary: ps acc w) (simp_all add: split_def Let_def)

lemma render_fold_length_p:
  "length (fst (fold (\<lambda>i (qs, out, v).
             let (p', calls, v') = step_p ev bh c r cx cy mv t (qs ! i) v
             in (qs[i := p'], out @ calls, v')) js (ps, acc, w))) = length ps"
  by (induction js arbitrary: ps acc w) (simp_all add: split_def Let_def)

lemma render_length:
  "length (fst (render_e ev c r cx cy t n ps w)) = length ps"
  "length (fst (render_p ev bh c r cx cy mv t n ps w)) = length ps"
  unfolding render_e_def render_p_def
  by (rule render_fold_length_e, rule render_fold_length_p)

lemma render_fold_untouched_e:
  "j \<notin> set js \<Longrightarrow>
   fst (fold (\<lambda>i (qs, out, v).
             let (p', calls, v') = step_e ev c r cx cy t (qs ! i) v
             in (qs[i := p'], out @ calls, v')) js (ps, acc, w)) ! j = ps ! j"
  by (induction js arbitrary: ps acc w) (simp_all add: split_def Let_def)

lemma render_e_Suc:
  "render_e ev c r cx cy t (int (Suc i)) ps w =
     (let (qs, out, v) = render_e ev c r cx cy t (int i) ps w;
          (p', calls, v') = step_e ev c r cx cy t (qs ! i) v
      in (qs[i := p'], out @ calls, v'))"
  unfolding render_e_def nat_int by (simp add: split_def Let_def)

lemma render_e_untouched:
  "fst (render_e ev c r cx cy t (int i) ps w) ! i = ps ! i"
  unfolding render_e_def by (rule render_fold_untouched_e) simp

lemma render_e_split:
  assumes "Suc i \<le> n"
  shows "render_e ev c r cx cy t (int n) ps w =
     fold (\<lambda>i (qs, out, v).
             let (p', calls, v') = step_e ev c r cx cy t (qs ! i) v
             in (qs[i := p'], out @ calls, v'))
          [Suc i..<n] (render_e ev c r cx cy t (int (Suc i)) ps w)"
proof -
  have "[0..<n] = [0..<Suc i] @ [Suc i..<n]"
    using assms by (metis le0 upt_add_eq_append le_add_diff_inverse)
  then show ?thesis
    unfolding render_e_def nat_int by (simp del: upt_Suc)
qed

lemma render_e_final:
  assumes "Suc i \<le> n"
  shows "fst (render_e ev c r cx cy t (int n) ps w) ! i
           = fst (render_e ev c r cx cy t (int (Suc i)) ps w) ! i"
proof -
  obtain qs out v where q: "render_e ev c r cx cy t (int (Suc i)) ps w = (qs, out, v)"
    by (cases "render_e ev c r cx cy t (int (Suc i)) ps w")
  have "i \<notin> set [Suc i..<n]" by simp
  from render_fold_untouched_e [OF this]
  show ?thesis unfolding render_e_split [OF assms] q by simp
qed


lemma guard_in_frame_e:
  assumes i: "i < length ps" "i < n"
      and g: "k_r (kinematics cx cy t (ps ! i)) < MIN_R \<or> k_x (kinematics cx cy t (ps ! i)) < 0
            \<or> k_x (kinematics cx cy t (ps ! i)) \<ge> c \<or> k_y (kinematics cx cy t (ps ! i)) < 0
            \<or> k_y (kinematics cx cy t (ps ! i)) \<ge> r"
  shows "(let (qs, out, v) = render_e ev c r cx cy t (int i) ps w
          in render_e ev c r cx cy t (int (Suc i)) ps w
               = (qs[i := fst (respawn_e (ps ! i) c r v)], out, snd (respawn_e (ps ! i) c r v))
             \<and> fst (render_e ev c r cx cy t (int n) ps w) ! i = fst (respawn_e (ps ! i) c r v))"
proof -
  obtain qs out v where q: "render_e ev c r cx cy t (int i) ps w = (qs, out, v)"
    by (cases "render_e ev c r cx cy t (int i) ps w")
  have qi: "qs ! i = ps ! i"
    using render_e_untouched [of ev c r cx cy t i ps w] unfolding q by simp
  have len: "length qs = length ps"
    using render_length(1) [of ev c r cx cy t "int i" ps w] unfolding q by simp
  have st: "step_e ev c r cx cy t (ps ! i) v
              = (fst (respawn_e (ps ! i) c r v), [], snd (respawn_e (ps ! i) c r v))"
    using g unfolding step_e_def Let_def by (simp add: split_def)
  have s: "render_e ev c r cx cy t (int (Suc i)) ps w
             = (qs[i := fst (respawn_e (ps ! i) c r v)], out, snd (respawn_e (ps ! i) c r v))"
    unfolding render_e_Suc q split_conv qi st Let_def by simp
  have "Suc i \<le> n" using i(2) by simp
  from render_e_final [OF this, of ev c r cx cy t ps w]
  have "fst (render_e ev c r cx cy t (int n) ps w) ! i = fst (respawn_e (ps ! i) c r v)"
    unfolding s using i(1) len by simp
  with s show ?thesis unfolding q Let_def split_conv by simp
qed

lemma render_fold_untouched_p:
  "j \<notin> set js \<Longrightarrow>
   fst (fold (\<lambda>i (qs, out, v).
             let (p', calls, v') = step_p ev bh c r cx cy mv t (qs ! i) v
             in (qs[i := p'], out @ calls, v')) js (ps, acc, w)) ! j = ps ! j"
  by (induction js arbitrary: ps acc w) (simp_all add: split_def Let_def)

lemma render_p_Suc:
  "render_p ev bh c r cx cy mv t (int (Suc i)) ps w =
     (let (qs, out, v) = render_p ev bh c r cx cy mv t (int i) ps w;
          (p', calls, v') = step_p ev bh c r cx cy mv t (qs ! i) v
      in (qs[i := p'], out @ calls, v'))"
  unfolding render_p_def nat_int by (simp add: split_def Let_def)

lemma render_p_untouched:
  "fst (render_p ev bh c r cx cy mv t (int i) ps w) ! i = ps ! i"
  unfolding render_p_def by (rule render_fold_untouched_p) simp

lemma render_p_split:
  assumes "Suc i \<le> n"
  shows "render_p ev bh c r cx cy mv t (int n) ps w =
     fold (\<lambda>i (qs, out, v).
             let (p', calls, v') = step_p ev bh c r cx cy mv t (qs ! i) v
             in (qs[i := p'], out @ calls, v'))
          [Suc i..<n] (render_p ev bh c r cx cy mv t (int (Suc i)) ps w)"
proof -
  have "[0..<n] = [0..<Suc i] @ [Suc i..<n]"
    using assms by (metis le0 upt_add_eq_append le_add_diff_inverse)
  then show ?thesis
    unfolding render_p_def nat_int by (simp del: upt_Suc)
qed

lemma render_p_final:
  assumes "Suc i \<le> n"
  shows "fst (render_p ev bh c r cx cy mv t (int n) ps w) ! i
           = fst (render_p ev bh c r cx cy mv t (int (Suc i)) ps w) ! i"
proof -
  obtain qs out v where q: "render_p ev bh c r cx cy mv t (int (Suc i)) ps w = (qs, out, v)"
    by (cases "render_p ev bh c r cx cy mv t (int (Suc i)) ps w")
  have "i \<notin> set [Suc i..<n]" by simp
  from render_fold_untouched_p [OF this]
  show ?thesis unfolding render_p_split [OF assms] q by simp
qed


lemma guard_in_frame_p:
  assumes i: "i < length ps" "i < n"
      and g: "k_r (kinematics cx cy t (ps ! i)) < MIN_R \<or> k_x (kinematics cx cy t (ps ! i)) < 0
            \<or> k_x (kinematics cx cy t (ps ! i)) \<ge> c \<or> k_y (kinematics cx cy t (ps ! i)) < 0
            \<or> k_y (kinematics cx cy t (ps ! i)) \<ge> r"
  shows "(let (qs, out, v) = render_p ev bh c r cx cy mv t (int i) ps w
          in render_p ev bh c r cx cy mv t (int (Suc i)) ps w
               = (qs[i := fst (respawn_p (ps ! i) c r v)], out, snd (respawn_p (ps ! i) c r v))
             \<and> fst (render_p ev bh c r cx cy mv t (int n) ps w) ! i = fst (respawn_p (ps ! i) c r v))"
proof -
  obtain qs out v where q: "render_p ev bh c r cx cy mv t (int i) ps w = (qs, out, v)"
    by (cases "render_p ev bh c r cx cy mv t (int i) ps w")
  have qi: "qs ! i = ps ! i"
    using render_p_untouched [of ev bh c r cx cy mv t i ps w] unfolding q by simp
  have len: "length qs = length ps"
    using render_length(2) [of ev bh c r cx cy mv t "int i" ps w] unfolding q by simp
  have st: "step_p ev bh c r cx cy mv t (ps ! i) v
              = (fst (respawn_p (ps ! i) c r v), [], snd (respawn_p (ps ! i) c r v))"
    using g unfolding step_p_def Let_def by (simp add: split_def)
  have s: "render_p ev bh c r cx cy mv t (int (Suc i)) ps w
             = (qs[i := fst (respawn_p (ps ! i) c r v)], out, snd (respawn_p (ps ! i) c r v))"
    unfolding render_p_Suc q split_conv qi st Let_def by simp
  have "Suc i \<le> n" using i(2) by simp
  from render_p_final [OF this, of ev bh c r cx cy mv t ps w]
  have "fst (render_p ev bh c r cx cy mv t (int n) ps w) ! i = fst (respawn_p (ps ! i) c r v)"
    unfolding s using i(1) len by simp
  with s show ?thesis unfolding q Let_def split_conv by simp
qed

lemma respawn_fold_untouched_e:
  "j \<notin> set js \<Longrightarrow>
   fst (fold (\<lambda>i (qs, v). let (p', v') = respawn_e (qs ! i) c r v in (qs[i := p'], v'))
          js (ps, w)) ! j = ps ! j"
  by (induction js arbitrary: ps w) (simp_all add: split_def Let_def)

lemma respawn_all_e_Suc:
  "respawn_all_e c r (int (Suc i)) ps w =
     (let (qs, v) = respawn_all_e c r (int i) ps w;
          (p', v') = respawn_e (qs ! i) c r v
      in (qs[i := p'], v'))"
  unfolding respawn_all_e_def nat_int by (simp add: split_def Let_def)

lemma respawn_all_e_split:
  assumes "Suc i \<le> n"
  shows "respawn_all_e c r (int n) ps w =
     fold (\<lambda>i (qs, v). let (p', v') = respawn_e (qs ! i) c r v in (qs[i := p'], v'))
          [Suc i..<n] (respawn_all_e c r (int (Suc i)) ps w)"
proof -
  have "[0..<n] = [0..<Suc i] @ [Suc i..<n]"
    using assms by (metis le0 upt_add_eq_append le_add_diff_inverse)
  then show ?thesis
    unfolding respawn_all_e_def nat_int by (simp del: upt_Suc)
qed

lemma respawn_all_e_nth:
  assumes "i < length ps" and "i < n"
  shows "fst (respawn_all_e c r (int n) ps w) ! i
           = fst (respawn_e (ps ! i) c r (snd (respawn_all_e c r (int i) ps w)))"
proof -
  obtain qs v where q: "respawn_all_e c r (int i) ps w = (qs, v)"
    by (cases "respawn_all_e c r (int i) ps w")
  have qi: "qs ! i = ps ! i"
    using respawn_fold_untouched_e [of i "[0..<i]" c r ps w] q
    unfolding respawn_all_e_def nat_int by simp
  have len: "length qs = length ps"
    using respawn_all_length(1) [of c r "int i" ps w] unfolding q by simp
  have s: "respawn_all_e c r (int (Suc i)) ps w
             = (qs[i := fst (respawn_e (ps ! i) c r v)], snd (respawn_e (ps ! i) c r v))"
    unfolding respawn_all_e_Suc q split_conv qi Let_def by (simp add: split_def)
  have "Suc i \<le> n" using assms(2) by simp
  from respawn_all_e_split [OF this, of c r ps w]
  have "fst (respawn_all_e c r (int n) ps w) ! i
          = (qs[i := fst (respawn_e (ps ! i) c r v)]) ! i"
    unfolding s using respawn_fold_untouched_e [of i "[Suc i..<n]" c r] by simp
  then show ?thesis unfolding q using assms(1) len by simp
qed

lemma respawn_fold_untouched_p:
  "j \<notin> set js \<Longrightarrow>
   fst (fold (\<lambda>i (qs, v). let (p', v') = respawn_p (qs ! i) c r v in (qs[i := p'], v'))
          js (ps, w)) ! j = ps ! j"
  by (induction js arbitrary: ps w) (simp_all add: split_def Let_def)

lemma respawn_all_p_Suc:
  "respawn_all_p c r (int (Suc i)) ps w =
     (let (qs, v) = respawn_all_p c r (int i) ps w;
          (p', v') = respawn_p (qs ! i) c r v
      in (qs[i := p'], v'))"
  unfolding respawn_all_p_def nat_int by (simp add: split_def Let_def)

lemma respawn_all_p_split:
  assumes "Suc i \<le> n"
  shows "respawn_all_p c r (int n) ps w =
     fold (\<lambda>i (qs, v). let (p', v') = respawn_p (qs ! i) c r v in (qs[i := p'], v'))
          [Suc i..<n] (respawn_all_p c r (int (Suc i)) ps w)"
proof -
  have "[0..<n] = [0..<Suc i] @ [Suc i..<n]"
    using assms by (metis le0 upt_add_eq_append le_add_diff_inverse)
  then show ?thesis
    unfolding respawn_all_p_def nat_int by (simp del: upt_Suc)
qed

lemma respawn_all_p_nth:
  assumes "i < length ps" and "i < n"
  shows "fst (respawn_all_p c r (int n) ps w) ! i
           = fst (respawn_p (ps ! i) c r (snd (respawn_all_p c r (int i) ps w)))"
proof -
  obtain qs v where q: "respawn_all_p c r (int i) ps w = (qs, v)"
    by (cases "respawn_all_p c r (int i) ps w")
  have qi: "qs ! i = ps ! i"
    using respawn_fold_untouched_p [of i "[0..<i]" c r ps w] q
    unfolding respawn_all_p_def nat_int by simp
  have len: "length qs = length ps"
    using respawn_all_length(2) [of c r "int i" ps w] unfolding q by simp
  have s: "respawn_all_p c r (int (Suc i)) ps w
             = (qs[i := fst (respawn_p (ps ! i) c r v)], snd (respawn_p (ps ! i) c r v))"
    unfolding respawn_all_p_Suc q split_conv qi Let_def by (simp add: split_def)
  have "Suc i \<le> n" using assms(2) by simp
  from respawn_all_p_split [OF this, of c r ps w]
  have "fst (respawn_all_p c r (int n) ps w) ! i
          = (qs[i := fst (respawn_p (ps ! i) c r v)]) ! i"
    unfolding s using respawn_fold_untouched_p [of i "[Suc i..<n]" c r] by simp
  then show ?thesis unfolding q using assms(1) len by simp
qed

section \<open>Frame renderer: the respawn guard\<close>

text \<open>
  Claim C1. Let \<open>k\<close> be what the loop body computes for a particle \<open>p\<close>: \<open>k_r k\<close> the
  radial distance \<open>sqrt (vx\<^sup>2 + vy\<^sup>2)\<close> before stretching, \<open>(k_x k, k_y k)\<close> the rounded
  screen coordinates. If \<open>k_r k < 3\<close>, or \<open>(k_x k, k_y k)\<close> is outside
  \<open>[0, cols) \<times> [0, rows)\<close>, then in both files the body replaces the particle by a
  respawned one, advances the world as that respawn does, and makes no call on the
  terminal. Inside a frame, when \<open>p\<close> is the \<open>i\<close>-th particle of the swarm: the loop up to
  and including \<open>i\<close> has made exactly the calls it had made before \<open>i\<close>, so nothing is
  drawn for the particle, and at the end of the frame the \<open>i\<close>-th particle is the
  respawned one.
\<close>

theorem guard_respawns_without_draw:
  assumes "k = kinematics cx cy tnow p"
      and "k_r k < 3 \<or> \<not> (0 \<le> k_x k \<and> k_x k < ncols \<and> 0 \<le> k_y k \<and> k_y k < nrows)"
  shows "k_r k = sqrt ((k_vx k)\<^sup>2 + (k_vy k)\<^sup>2)
     \<and> k_x k = lroundf (k_fx k) \<and> k_y k = lroundf (k_fy k)
     \<and> step_e ev ncols nrows cx cy tnow p w
         = (fst (respawn_e p ncols nrows w), [], snd (respawn_e p ncols nrows w))
     \<and> step_p ev bh ncols nrows cx cy mv tnow p w
         = (fst (respawn_p p ncols nrows w), [], snd (respawn_p p ncols nrows w))
     \<and> (i < length ps \<and> i < n \<and> ps ! i = p \<longrightarrow>
          (let (qs, out, v) = render_e ev ncols nrows cx cy tnow (int i) ps w
           in render_e ev ncols nrows cx cy tnow (int (Suc i)) ps w
                = (qs[i := fst (respawn_e p ncols nrows v)], out, snd (respawn_e p ncols nrows v))
              \<and> fst (render_e ev ncols nrows cx cy tnow (int n) ps w) ! i
                  = fst (respawn_e p ncols nrows v))
        \<and> (let (qs, out, v) = render_p ev bh ncols nrows cx cy mv tnow (int i) ps w
           in render_p ev bh ncols nrows cx cy mv tnow (int (Suc i)) ps w
                = (qs[i := fst (respawn_p p ncols nrows v)], out, snd (respawn_p p ncols nrows v))
              \<and> fst (render_p ev bh ncols nrows cx cy mv tnow (int n) ps w) ! i
                  = fst (respawn_p p ncols nrows v)))"
proof -
  have g: "k_r k < MIN_R \<or> k_x k < 0 \<or> k_x k \<ge> ncols \<or> k_y k < 0 \<or> k_y k \<ge> nrows"
    using assms(2) by (auto simp: MIN_R_def)
  have 1: "k_r k = sqrt ((k_vx k)\<^sup>2 + (k_vy k)\<^sup>2)
     \<and> k_x k = lroundf (k_fx k) \<and> k_y k = lroundf (k_fy k)"
    by (simp add: assms(1) kinematics_def Let_def power2_eq_square)
  have 2: "step_e ev ncols nrows cx cy tnow p w
         = (fst (respawn_e p ncols nrows w), [], snd (respawn_e p ncols nrows w))"
    using g unfolding step_e_def assms(1) [symmetric] Let_def by (simp add: split_def)
  have 3: "step_p ev bh ncols nrows cx cy mv tnow p w
         = (fst (respawn_p p ncols nrows w), [], snd (respawn_p p ncols nrows w))"
    using g unfolding step_p_def assms(1) [symmetric] Let_def by (simp add: split_def)
  have 4: "(let (qs, out, v) = render_e ev ncols nrows cx cy tnow (int i) ps w
           in render_e ev ncols nrows cx cy tnow (int (Suc i)) ps w
                = (qs[i := fst (respawn_e p ncols nrows v)], out, snd (respawn_e p ncols nrows v))
              \<and> fst (render_e ev ncols nrows cx cy tnow (int n) ps w) ! i
                  = fst (respawn_e p ncols nrows v))"
    if "i < length ps" and "i < n" and "ps ! i = p"
    using guard_in_frame_e [of i ps n cx cy tnow ncols nrows ev w] that g
    unfolding assms(1) by simp
  have 5: "(let (qs, out, v) = render_p ev bh ncols nrows cx cy mv tnow (int i) ps w
           in render_p ev bh ncols nrows cx cy mv tnow (int (Suc i)) ps w
                = (qs[i := fst (respawn_p p ncols nrows v)], out, snd (respawn_p p ncols nrows v))
              \<and> fst (render_p ev bh ncols nrows cx cy mv tnow (int n) ps w) ! i
                  = fst (respawn_p p ncols nrows v))"
    if "i < length ps" and "i < n" and "ps ! i = p"
    using guard_in_frame_p [of i ps n cx cy tnow ncols nrows ev bh mv w] that g
    unfolding assms(1) by simp
  from 1 2 3 4 5 show ?thesis by blast
qed

lemma still_particle_radius: "k_r (kinematics cx cy 0 still_particle) = 0"
  by (simp add: kinematics_def still_particle_def Let_def)

theorem guard_respawns_without_draw_witness:
  "k_r (kinematics (centre_x 80) (centre_y 24) 0 still_particle) < 3
   \<and> step_e vt80x24 80 24 (centre_x 80) (centre_y 24) 0 still_particle quiet_world
       = (fst (respawn_e still_particle 80 24 quiet_world), [],
          snd (respawn_e still_particle 80 24 quiet_world))
   \<and> step_p vt80x24 1 80 24 (centre_x 80) (centre_y 24) (centre_y 24) 0 still_particle quiet_world
       = (fst (respawn_p still_particle 80 24 quiet_world), [],
          snd (respawn_p still_particle 80 24 quiet_world))
   \<and> (0::nat) < length [still_particle] \<and> (0::nat) < 1 \<and> [still_particle] ! 0 = still_particle
   \<and> (let (qs, out, v) = render_e vt80x24 80 24 (centre_x 80) (centre_y 24) 0 (int 0)
                            [still_particle] quiet_world
       in render_e vt80x24 80 24 (centre_x 80) (centre_y 24) 0 (int (Suc 0))
            [still_particle] quiet_world
            = (qs[0 := fst (respawn_e still_particle 80 24 v)], out,
               snd (respawn_e still_particle 80 24 v)))"
proof -
  have h: "k_r (kinematics (centre_x 80) (centre_y 24) 0 still_particle) < 3
      \<or> \<not> (0 \<le> k_x (kinematics (centre_x 80) (centre_y 24) 0 still_particle)
           \<and> k_x (kinematics (centre_x 80) (centre_y 24) 0 still_particle) < 80
           \<and> 0 \<le> k_y (kinematics (centre_x 80) (centre_y 24) 0 still_particle)
           \<and> k_y (kinematics (centre_x 80) (centre_y 24) 0 still_particle) < 24)"
    by (simp add: still_particle_radius)
  have i: "(0::nat) < length [still_particle] \<and> (0::nat) < 1
      \<and> [still_particle] ! 0 = still_particle" by simp
  note t = guard_respawns_without_draw [OF refl h, of vt80x24 quiet_world 1 "centre_y 24"
      0 "[still_particle]" 1]
  from t i have f: "(let (qs, out, v) = render_e vt80x24 80 24 (centre_x 80) (centre_y 24) 0 (int 0)
                            [still_particle] quiet_world
       in render_e vt80x24 80 24 (centre_x 80) (centre_y 24) 0 (int (Suc 0))
            [still_particle] quiet_world
            = (qs[0 := fst (respawn_e still_particle 80 24 v)], out,
               snd (respawn_e still_particle 80 24 v)))"
    by (auto simp: split_def Let_def)
  from t have b: "step_e vt80x24 80 24 (centre_x 80) (centre_y 24) 0 still_particle quiet_world
       = (fst (respawn_e still_particle 80 24 quiet_world), [],
          snd (respawn_e still_particle 80 24 quiet_world))
     \<and> step_p vt80x24 1 80 24 (centre_x 80) (centre_y 24) (centre_y 24) 0 still_particle quiet_world
       = (fst (respawn_p still_particle 80 24 quiet_world), [],
          snd (respawn_p still_particle 80 24 quiet_world))"
    by blast
  have r: "k_r (kinematics (centre_x 80) (centre_y 24) 0 still_particle) < 3"
    by (simp add: still_particle_radius)
  from r b i f show ?thesis by blast
qed

section \<open>A fresh particle can start off-screen\<close>

lemma edge_respawn_e:
  "respawn_e p 100 50 edge_world
     = (p\<lparr>vx0 := 23.275, vy0 := 0, born := 0, ch := CHR ''0''\<rparr>, edge_world\<lparr>ri := 3, ci := 1\<rparr>)"
  by (simp add: respawn_e_def frandf_def rand_def rand_char_def now_seconds_def edge_world_def
      RAND_MAX_def charset_def Let_def)

lemma edge_respawn_p:
  "respawn_p p 100 50 edge_world
     = (p\<lparr>vx0 := 72.275, vy0 := 0, born := 0, ch := CHR ''0''\<rparr>, edge_world\<lparr>ri := 3, ci := 1\<rparr>)"
  by (simp add: respawn_p_def frandf_def rand_def rand_char_def now_seconds_def edge_world_def
      RAND_MAX_def charset_def Let_def)

lemma edge_kinematics_e:
  assumes "vx0 q = 23.275" and "vy0 q = 0" and "born q = 0"
  shows "kinematics (centre_x 100) (centre_y 50) 0 q
    = \<lparr>k_age = 0, k_vx = 35.378, k_vy = 0, k_r = 35.378, k_fx = 120.256, k_fy = 24.5,
       k_x = 120, k_y = 25\<rparr>"
  using kinematics_age0 [of "centre_x 100" "centre_y 50" q]
  by (simp add: assms centre_x_def centre_y_def lroundf_def RADIUS_MULT_def SCALE_def
      X_MULT_def Y_MULT_def)

lemma edge_kinematics_p:
  assumes "vx0 q = 72.275" and "vy0 q = 0" and "born q = 0"
  shows "kinematics (centre_x 100) (centre_y 50) 0 q
    = \<lparr>k_age = 0, k_vx = 109.858, k_vy = 0, k_r = 109.858, k_fx = 269.216, k_fy = 24.5,
       k_x = 269, k_y = 25\<rparr>"
  using kinematics_age0 [of "centre_x 100" "centre_y 50" q]
  by (simp add: assms centre_x_def centre_y_def lroundf_def RADIUS_MULT_def SCALE_def
      X_MULT_def Y_MULT_def)

lemma fresh_offscreen_e:
  "(let (q, v) = respawn_e p 100 50 edge_world;
        k = kinematics (centre_x 100) (centre_y 50) (born q) q
    in 0.35 * centre_y 50 \<le> vx0 q \<and> vx0 q \<le> 0.95 * centre_y 50 \<and> vy0 q = 0
       \<and> k_age k = 0 \<and> k_fx k - centre_x 100 = 3.04 * vx0 q
       \<and> 3.04 * vx0 q > centre_x 100 \<and> k_x k \<ge> 100
       \<and> step_e ev 100 50 (centre_x 100) (centre_y 50) (born q) q v
           = (fst (respawn_e q 100 50 v), [], snd (respawn_e q 100 50 v)))"
proof -
  obtain q v where qv: "respawn_e p 100 50 edge_world = (q, v)"
    by (cases "respawn_e p 100 50 edge_world")
  have q: "vx0 q = 23.275" "vy0 q = 0" "born q = 0"
    using qv unfolding edge_respawn_e by auto
  note k = edge_kinematics_e [OF q]
  have s: "step_e ev 100 50 (centre_x 100) (centre_y 50) 0 q v
           = (fst (respawn_e q 100 50 v), [], snd (respawn_e q 100 50 v))"
    unfolding step_e_def k Let_def by (simp add: split_def)
  have c: "centre_x 100 = 49.5" "centre_y 50 = 24.5"
    by (simp_all add: centre_x_def centre_y_def)
  show ?thesis
    unfolding qv split_conv Let_def q k s by (simp add: c)
qed

lemma fresh_offscreen_p:
  "(let (q, v) = respawn_p p 100 50 edge_world;
        k = kinematics (centre_x 100) (centre_y 50) (born q) q
    in 0.35 * centre_y 50 \<le> vx0 q \<and> vx0 q \<le> 2.95 * centre_y 50 \<and> vy0 q = 0
       \<and> k_age k = 0 \<and> k_fx k - centre_x 100 = 3.04 * vx0 q
       \<and> 3.04 * vx0 q > centre_x 100 \<and> k_x k \<ge> 100
       \<and> step_p ev bh 100 50 (centre_x 100) (centre_y 50) mv (born q) q v
           = (fst (respawn_p q 100 50 v), [], snd (respawn_p q 100 50 v)))"
proof -
  obtain q v where qv: "respawn_p p 100 50 edge_world = (q, v)"
    by (cases "respawn_p p 100 50 edge_world")
  have q: "vx0 q = 72.275" "vy0 q = 0" "born q = 0"
    using qv unfolding edge_respawn_p by auto
  note k = edge_kinematics_p [OF q]
  have s: "step_p ev bh 100 50 (centre_x 100) (centre_y 50) mv 0 q v
           = (fst (respawn_p q 100 50 v), [], snd (respawn_p q 100 50 v))"
    unfolding step_p_def k Let_def by (simp add: split_def)
  have c: "centre_x 100 = 49.5" "centre_y 50 = 24.5"
    by (simp_all add: centre_x_def centre_y_def)
  show ?thesis
    unfolding qv split_conv Let_def q k s by (simp add: c)
qed

text \<open>
  Claim C10. A fresh particle need not be on screen at its first frame. On a 100 x 50
  terminal (\<open>maxr = 24.5\<close>), when \<^verbatim>\<open>rand()\<close> answers \<^verbatim>\<open>RAND_MAX\<close> for the radius and 0 for
  the angle, the respawn of either file yields a launch vector \<open>(vx0, 0)\<close> inside its
  annulus; evaluated at the instant of its birth (age 0, where \<open>expA\<close> is the identity)
  its horizontal offset is \<open>3.04 * vx0\<close>, more than the half-width 49.5, its column is
  beyond the last one, and the loop body respawns it again and draws nothing.
\<close>

theorem fresh_particle_offscreen:
  "(let (q, v) = respawn_e p 100 50 edge_world;
        k = kinematics (centre_x 100) (centre_y 50) (born q) q
    in 0.35 * centre_y 50 \<le> vx0 q \<and> vx0 q \<le> 0.95 * centre_y 50 \<and> vy0 q = 0
       \<and> k_age k = 0 \<and> k_fx k - centre_x 100 = 3.04 * vx0 q
       \<and> 3.04 * vx0 q > centre_x 100 \<and> k_x k \<ge> 100
       \<and> step_e ev 100 50 (centre_x 100) (centre_y 50) (born q) q v
           = (fst (respawn_e q 100 50 v), [], snd (respawn_e q 100 50 v)))
   \<and> (let (q, v) = respawn_p p 100 50 edge_world;
        k = kinematics (centre_x 100) (centre_y 50) (born q) q
    in 0.35 * centre_y 50 \<le> vx0 q \<and> vx0 q \<le> 2.95 * centre_y 50 \<and> vy0 q = 0
       \<and> k_age k = 0 \<and> k_fx k - centre_x 100 = 3.04 * vx0 q
       \<and> 3.04 * vx0 q > centre_x 100 \<and> k_x k \<ge> 100
       \<and> step_p ev bh 100 50 (centre_x 100) (centre_y 50) mv (born q) q v
           = (fst (respawn_p q 100 50 v), [], snd (respawn_p q 100 50 v)))"
  using fresh_offscreen_e fresh_offscreen_p by (rule conjI)

section \<open>Main loop\<close>

lemma frame_e_keeps:
  "st_N (snd (frame_e ev inp s)) = st_N s"
  "length (st_P (snd (frame_e ev inp s))) = length (st_P s)"
  "st_rows (snd (frame_e ev inp s)) = newr inp"
  "st_cols (snd (frame_e ev inp s)) = newc inp"
  by (auto simp: frame_e_def Let_def split_def render_length respawn_all_length)

lemma frame_p_keeps:
  "st_N (snd (frame_p ev inp s)) = st_N s"
  "length (st_P (snd (frame_p ev inp s))) = length (st_P s)"
  "st_rows (snd (frame_p ev inp s)) = newr inp"
  "st_cols (snd (frame_p ev inp s)) = newc inp"
  "st_bh_mode (snd (frame_p ev inp s)) = st_bh_mode s"
  by (auto simp: frame_p_def Let_def split_def render_length respawn_all_length)

lemma frame_e_resize:
  assumes "newr inp \<noteq> st_rows s \<or> newc inp \<noteq> st_cols s"
  shows "frame_e ev inp s =
           (let (ps, v) = respawn_all_e (newc inp) (newr inp) (st_N s) (st_P s) (st_world s);
                s1 = s\<lparr>st_rows := newr inp, st_cols := newc inp, st_P := ps, st_world := v\<rparr>
            in (Clear # fst (frame_e ev inp s1), snd (frame_e ev inp s1)))"
  using assms by (simp add: frame_e_def Let_def split_def)

lemma frame_p_resize:
  assumes "newr inp \<noteq> st_rows s \<or> newc inp \<noteq> st_cols s"
  shows "frame_p ev inp s =
           (let (ps, v) = respawn_all_p (newc inp) (newr inp) (st_N s) (st_P s) (st_world s);
                s1 = s\<lparr>st_rows := newr inp, st_cols := newc inp, st_P := ps, st_world := v\<rparr>
            in (Clear # fst (frame_p ev inp s1), snd (frame_p ev inp s1)))"
  using assms by (simp add: frame_p_def Let_def split_def)


lemma toggle_keeps:
  "st_N (toggle c s) = st_N s"
  "st_P (toggle c s) = st_P s"
  by (simp_all add: toggle_def)

lemma run_e_step:
  "\<not> (key inp = KEY_q \<or> key inp = KEY_Q) \<Longrightarrow>
   snd (run_e ev (inp # inps) s) = snd (run_e ev inps (snd (frame_e ev inp s)))"
  by (simp add: split_def Let_def)

lemma run_p_step:
  "\<not> (key inp = KEY_q \<or> key inp = KEY_Q) \<Longrightarrow>
   snd (run_p ev (inp # inps) s) = snd (run_p ev inps (snd (frame_p ev inp (toggle (key inp) s))))"
  by (simp add: split_def Let_def)

lemma run_quit:
  "key inp = KEY_q \<or> key inp = KEY_Q \<Longrightarrow> run_e ev (inp # inps) s = ([Free, Endwin], Exited 0)"
  "key inp = KEY_q \<or> key inp = KEY_Q \<Longrightarrow> run_p ev (inp # inps) t = ([Free, Endwin], Exited 0)"
  by simp_all

lemma run_e_keeps:
  "snd (run_e ev inps s) = Running s' \<Longrightarrow>
     st_N s' = st_N s \<and> length (st_P s') = length (st_P s)"
proof (induction inps arbitrary: s)
  case Nil
  then show ?case by simp
next
  case (Cons inp inps)
  show ?case
  proof (cases "key inp = KEY_q \<or> key inp = KEY_Q")
    case True
    with Cons.prems show ?thesis by (simp add: run_quit)
  next
    case False
    have "snd (run_e ev inps (snd (frame_e ev inp s))) = Running s'"
      using Cons.prems unfolding run_e_step [OF False] .
    from Cons.IH [OF this] show ?thesis by (simp add: frame_e_keeps)
  qed
qed

lemma run_p_keeps:
  "snd (run_p ev inps s) = Running s' \<Longrightarrow>
     st_N s' = st_N s \<and> length (st_P s') = length (st_P s)"
proof (induction inps arbitrary: s)
  case Nil
  then show ?case by simp
next
  case (Cons inp inps)
  show ?case
  proof (cases "key inp = KEY_q \<or> key inp = KEY_Q")
    case True
    with Cons.prems show ?thesis by (simp add: run_quit)
  next
    case False
    have "snd (run_p ev inps (snd (frame_p ev inp (toggle (key inp) s)))) = Running s'"
      using Cons.prems unfolding run_p_step [OF False] .
    from Cons.IH [OF this] show ?thesis by (simp add: frame_p_keeps toggle_keeps)
  qed
qed

lemma swarm_size_max:
  "swarm_size_e nrows ncols = max ((nrows * ncols) sdiv 12) 200"
  "swarm_size_p nrows ncols = max ((nrows * ncols) sdiv 20) 200"
  by (simp_all add: swarm_size_e_def swarm_size_p_def Let_def max_def)

lemma start_fields:
  "st_N (start_e ev w) = swarm_size_e (rows0 ev) (cols0 ev)"
  "length (st_P (start_e ev w)) = nat (swarm_size_e (rows0 ev) (cols0 ev))"
  "st_rows (start_e ev w) = rows0 ev"
  "st_cols (start_e ev w) = cols0 ev"
  "st_N (start_p ev w) = swarm_size_p (rows0 ev) (cols0 ev)"
  "length (st_P (start_p ev w)) = nat (swarm_size_p (rows0 ev) (cols0 ev))"
  "st_rows (start_p ev w) = rows0 ev"
  "st_cols (start_p ev w) = cols0 ev"
  "st_bh_mode (start_p ev w) = 0"
  by (simp_all add: start_e_def start_p_def Let_def split_def respawn_all_length
      calloc_particles_def)

lemma main_running:
  "snd (main_e ev w inps) = Running s \<Longrightarrow> snd (run_e ev inps (start_e ev w)) = Running s"
  "snd (main_p ev w inps) = Running t \<Longrightarrow> snd (run_p ev inps (start_p ev w)) = Running t"
  by (cases "calloc_ok ev"; simp add: main_e_def main_p_def Let_def split_def)+

lemma main_ok:
  "calloc_ok ev \<Longrightarrow> snd (main_e ev w inps) = snd (run_e ev inps (start_e ev w))"
  "calloc_ok ev \<Longrightarrow> fst (main_e ev w inps)
      = setup_green (has_colors ev) @ fst (run_e ev inps (start_e ev w))"
  "calloc_ok ev \<Longrightarrow> snd (main_p ev w inps) = snd (run_p ev inps (start_p ev w))"
  "calloc_ok ev \<Longrightarrow> fst (main_p ev w inps)
      = (setup_green (has_colors ev) @ (if has_colors ev then setup_palette (COLORS ev) else []))
        @ fst (run_p ev inps (start_p ev w))"
  by (simp_all add: main_e_def main_p_def Let_def split_def)

lemma main_no_memory:
  "\<not> calloc_ok ev \<Longrightarrow> main_e ev w inps = (setup_green (has_colors ev) @ [Endwin], Exited 1)"
  "\<not> calloc_ok ev \<Longrightarrow> main_p ev w inps =
     ((setup_green (has_colors ev) @ (if has_colors ev then setup_palette (COLORS ev) else []))
       @ [Endwin], Exited 1)"
  by (simp_all add: main_e_def main_p_def Let_def)


lemma run_fst_step:
  "\<not> (key inp = KEY_q \<or> key inp = KEY_Q) \<Longrightarrow>
   fst (run_e ev (inp # inps) s)
     = fst (frame_e ev inp s) @ fst (run_e ev inps (snd (frame_e ev inp s)))"
  "\<not> (key inp = KEY_q \<or> key inp = KEY_Q) \<Longrightarrow>
   fst (run_p ev (inp # inps) t)
     = fst (frame_p ev inp (toggle (key inp) t))
       @ fst (run_p ev inps (snd (frame_p ev inp (toggle (key inp) t))))"
  by (simp_all add: split_def Let_def)

lemma run_e_quits:
  "\<exists>i\<in>set inps. key i = KEY_q \<or> key i = KEY_Q \<Longrightarrow>
     snd (run_e ev inps s) = Exited 0 \<and> fst (run_e ev inps s) \<noteq> []
     \<and> last (fst (run_e ev inps s)) = Endwin"
proof (induction inps arbitrary: s)
  case Nil
  then show ?case by simp
next
  case (Cons inp inps)
  show ?case
  proof (cases "key inp = KEY_q \<or> key inp = KEY_Q")
    case True
    then show ?thesis by (simp add: run_quit)
  next
    case False
    with Cons.prems have "\<exists>i\<in>set inps. key i = KEY_q \<or> key i = KEY_Q" by auto
    from Cons.IH [OF this, of "snd (frame_e ev inp s)"] show ?thesis
      unfolding run_e_step [OF False] run_fst_step(1) [OF False] by simp
  qed
qed

lemma run_p_quits:
  "\<exists>i\<in>set inps. key i = KEY_q \<or> key i = KEY_Q \<Longrightarrow>
     snd (run_p ev inps s) = Exited 0 \<and> fst (run_p ev inps s) \<noteq> []
     \<and> last (fst (run_p ev inps s)) = Endwin"
proof (induction inps arbitrary: s)
  case Nil
  then show ?case by simp
next
  case (Cons inp inps)
  show ?case
  proof (cases "key inp = KEY_q \<or> key inp = KEY_Q")
    case True
    then show ?thesis by (simp add: run_quit)
  next
    case False
    with Cons.prems have "\<exists>i\<in>set inps. key i = KEY_q \<or> key i = KEY_Q" by auto
    from Cons.IH [OF this, of "snd (frame_p ev inp (toggle (key inp) s))"] show ?thesis
      unfolding run_p_step [OF False] run_fst_step(2) [OF False] by simp
  qed
qed

lemma run_e_exit_code: "snd (run_e ev inps s) = Exited c \<Longrightarrow> c = 0"
proof (induction inps arbitrary: s)
  case Nil
  then show ?case by simp
next
  case (Cons inp inps)
  show ?case
  proof (cases "key inp = KEY_q \<or> key inp = KEY_Q")
    case True
    with Cons.prems show ?thesis by (simp add: run_quit)
  next
    case False
    have "snd (run_e ev inps (snd (frame_e ev inp s))) = Exited c"
      using Cons.prems unfolding run_e_step [OF False] .
    then show ?thesis by (rule Cons.IH)
  qed
qed

lemma run_p_exit_code: "snd (run_p ev inps s) = Exited c \<Longrightarrow> c = 0"
proof (induction inps arbitrary: s)
  case Nil
  then show ?case by simp
next
  case (Cons inp inps)
  show ?case
  proof (cases "key inp = KEY_q \<or> key inp = KEY_Q")
    case True
    with Cons.prems show ?thesis by (simp add: run_quit)
  next
    case False
    have "snd (run_p ev inps (snd (frame_p ev inp (toggle (key inp) s)))) = Exited c"
      using Cons.prems unfolding run_p_step [OF False] .
    then show ?thesis by (rule Cons.IH)
  qed
qed

lemma cnot_01: "cnot v = 0 \<or> cnot v = 1"
  by (simp add: cnot_def)

lemma toggle_mode_01:
  "st_bh_mode s = 0 \<or> st_bh_mode s = 1 \<Longrightarrow>
   st_bh_mode (toggle c s) = 0 \<or> st_bh_mode (toggle c s) = 1"
  using cnot_01 [of "st_bh_mode s"] by (auto simp: toggle_def)

lemma run_p_mode_01:
  "snd (run_p ev inps s) = Running u \<Longrightarrow> st_bh_mode s = 0 \<or> st_bh_mode s = 1 \<Longrightarrow>
     st_bh_mode u = 0 \<or> st_bh_mode u = 1"
proof (induction inps arbitrary: s)
  case Nil
  then show ?case by simp
next
  case (Cons inp inps)
  show ?case
  proof (cases "key inp = KEY_q \<or> key inp = KEY_Q")
    case True
    with Cons.prems show ?thesis by (simp add: run_quit)
  next
    case False
    have r: "snd (run_p ev inps (snd (frame_p ev inp (toggle (key inp) s)))) = Running u"
      using Cons.prems(1) unfolding run_p_step [OF False] .
    have "st_bh_mode (snd (frame_p ev inp (toggle (key inp) s))) = 0
        \<or> st_bh_mode (snd (frame_p ev inp (toggle (key inp) s))) = 1"
      using toggle_mode_01 [OF Cons.prems(2)] by (simp add: frame_p_keeps)
    with r show ?thesis by (rule Cons.IH)
  qed
qed

lemma run_p_mode_kept:
  "snd (run_p ev inps s) = Running u \<Longrightarrow> \<forall>i\<in>set inps. \<not> (key i = KEY_r \<or> key i = KEY_R) \<Longrightarrow>
     st_bh_mode u = st_bh_mode s"
proof (induction inps arbitrary: s)
  case Nil
  then show ?case by simp
next
  case (Cons inp inps)
  show ?case
  proof (cases "key inp = KEY_q \<or> key inp = KEY_Q")
    case True
    with Cons.prems show ?thesis by (simp add: run_quit)
  next
    case False
    have r: "snd (run_p ev inps (snd (frame_p ev inp (toggle (key inp) s)))) = Running u"
      using Cons.prems(1) unfolding run_p_step [OF False] .
    have k: "\<not> (key inp = KEY_r \<or> key inp = KEY_R)" using Cons.prems(2) by simp
    have "\<forall>i\<in>set inps. \<not> (key i = KEY_r \<or> key i = KEY_R)" using Cons.prems(2) by simp
    from Cons.IH [OF r this] k show ?thesis
      by (simp add: frame_p_keeps toggle_def)
  qed
qed

text \<open>
  Claim C7, as stated, fails: the swarm's size is not a function of the current terminal
  area. Started on 80 x 24 and resized to 200 x 60, either file keeps its 200 particles,
  where \<open>max (rows * cols / 12) 200\<close> of the new area is 1000 (and 600 with the divisor 20).
\<close>

theorem swarm_size_not_of_current_area:
  "(case snd (main_e vt80x24 quiet_world [grow]) of
      Running s \<Rightarrow> st_rows s = 60 \<and> st_cols s = 200 \<and> st_N s = 200 \<and> length (st_P s) = 200
                    \<and> max ((st_rows s * st_cols s) sdiv 12) 200 = 1000
    | Exited c \<Rightarrow> False)
   \<and> (case snd (main_p vt80x24 quiet_world [grow]) of
      Running s \<Rightarrow> st_rows s = 60 \<and> st_cols s = 200 \<and> st_N s = 200 \<and> length (st_P s) = 200
                    \<and> max ((st_rows s * st_cols s) sdiv 20) 200 = 600
    | Exited c \<Rightarrow> False)"
proof -
  have ok: "calloc_ok vt80x24" by (simp add: vt80x24_def)
  have k: "\<not> (key grow = KEY_q \<or> key grow = KEY_Q)"
    by (simp add: grow_def KEY_q_def KEY_Q_def)
  have e: "snd (main_e vt80x24 quiet_world [grow])
             = Running (snd (frame_e vt80x24 grow (start_e vt80x24 quiet_world)))"
    unfolding main_ok(1) [OF ok] run_e_step [OF k] by simp
  have p: "snd (main_p vt80x24 quiet_world [grow])
             = Running (snd (frame_p vt80x24 grow (toggle (key grow) (start_p vt80x24 quiet_world))))"
    unfolding main_ok(3) [OF ok] run_p_step [OF k] by simp
  have n: "swarm_size_e (rows0 vt80x24) (cols0 vt80x24) = 200"
          "swarm_size_p (rows0 vt80x24) (cols0 vt80x24) = 200"
    by (simp_all add: swarm_size_max vt80x24_def signed_divide_int_def)
  have g: "newr grow = 60" "newc grow = 200" by (simp_all add: grow_def)
  show ?thesis
    unfolding e p
    by (simp add: frame_e_keeps frame_p_keeps toggle_keeps start_fields n g signed_divide_int_def)
qed


text \<open>
  Claim C7, amended. In every state the running program reaches, the swarm's size is
  \<open>max (rows * cols / 12) 200\<close> in \<^verbatim>\<open>ematrix.c\<close> and \<open>max (rows * cols / 20) 200\<close> in
  the second file, computed from the terminal size read at start (\<open>/\<close> is C's integer
  division), it is at least 200, and the swarm holds that many particles. No loop
  iteration changes the size or the number of particles. An iteration that sees a new
  terminal size is: clear the screen, run the respawn loop with the new size over the
  same \<open>N\<close> particles, then do what an iteration without resize does from there; and the
  respawn loop leaves at every index below \<open>N\<close> the respawn of the particle it found
  there, so a resize respawns every particle and keeps their number.
\<close>

theorem swarm_size_fixed_at_start:
  "(snd (main_e ev w inps) = Running s \<longrightarrow>
      st_N s = max ((rows0 ev * cols0 ev) sdiv 12) 200 \<and> 200 \<le> st_N s
      \<and> length (st_P s) = nat (st_N s))
   \<and> (snd (main_p ev w inps) = Running t \<longrightarrow>
      st_N t = max ((rows0 ev * cols0 ev) sdiv 20) 200 \<and> 200 \<le> st_N t
      \<and> length (st_P t) = nat (st_N t))
   \<and> st_N (snd (frame_e ev inp s')) = st_N s'
   \<and> length (st_P (snd (frame_e ev inp s'))) = length (st_P s')
   \<and> st_N (snd (frame_p ev inp t')) = st_N t'
   \<and> length (st_P (snd (frame_p ev inp t'))) = length (st_P t')
   \<and> (newr inp \<noteq> st_rows s' \<or> newc inp \<noteq> st_cols s' \<longrightarrow>
        frame_e ev inp s' =
           (let (ps, v) = respawn_all_e (newc inp) (newr inp) (st_N s') (st_P s') (st_world s');
                s1 = s'\<lparr>st_rows := newr inp, st_cols := newc inp, st_P := ps, st_world := v\<rparr>
            in (Clear # fst (frame_e ev inp s1), snd (frame_e ev inp s1))))
   \<and> (newr inp \<noteq> st_rows t' \<or> newc inp \<noteq> st_cols t' \<longrightarrow>
        frame_p ev inp t' =
           (let (ps, v) = respawn_all_p (newc inp) (newr inp) (st_N t') (st_P t') (st_world t');
                s1 = t'\<lparr>st_rows := newr inp, st_cols := newc inp, st_P := ps, st_world := v\<rparr>
            in (Clear # fst (frame_p ev inp s1), snd (frame_p ev inp s1))))
   \<and> length (fst (respawn_all_e ncols nrows (int n) ps v)) = length ps
   \<and> length (fst (respawn_all_p ncols nrows (int n) ps v)) = length ps
   \<and> (i < length ps \<and> i < n \<longrightarrow>
        fst (respawn_all_e ncols nrows (int n) ps v) ! i
          = fst (respawn_e (ps ! i) ncols nrows (snd (respawn_all_e ncols nrows (int i) ps v)))
      \<and> fst (respawn_all_p ncols nrows (int n) ps v) ! i
          = fst (respawn_p (ps ! i) ncols nrows (snd (respawn_all_p ncols nrows (int i) ps v))))"
proof -
  have e: "st_N s = max ((rows0 ev * cols0 ev) sdiv 12) 200 \<and> 200 \<le> st_N s
      \<and> length (st_P s) = nat (st_N s)" if "snd (main_e ev w inps) = Running s"
    using run_e_keeps [OF main_running(1) [OF that]]
    by (simp add: start_fields swarm_size_max)
  have p: "st_N t = max ((rows0 ev * cols0 ev) sdiv 20) 200 \<and> 200 \<le> st_N t
      \<and> length (st_P t) = nat (st_N t)" if "snd (main_p ev w inps) = Running t"
    using run_p_keeps [OF main_running(2) [OF that]]
    by (simp add: start_fields swarm_size_max)
  have n: "fst (respawn_all_e ncols nrows (int n) ps v) ! i
          = fst (respawn_e (ps ! i) ncols nrows (snd (respawn_all_e ncols nrows (int i) ps v)))
      \<and> fst (respawn_all_p ncols nrows (int n) ps v) ! i
          = fst (respawn_p (ps ! i) ncols nrows (snd (respawn_all_p ncols nrows (int i) ps v)))"
    if "i < length ps" and "i < n"
    using respawn_all_e_nth [OF that] respawn_all_p_nth [OF that] by simp
  from e p n frame_e_resize [of inp s' ev] frame_p_resize [of inp t' ev]
  show ?thesis
    by (simp only: frame_e_keeps frame_p_keeps respawn_all_length) blast
qed


theorem swarm_size_fixed_at_start_witness:
  "snd (main_e vt80x24 quiet_world [grow])
     = Running (snd (frame_e vt80x24 grow (start_e vt80x24 quiet_world)))
   \<and> st_N (snd (frame_e vt80x24 grow (start_e vt80x24 quiet_world)))
        = max ((rows0 vt80x24 * cols0 vt80x24) sdiv 12) 200
   \<and> length (st_P (snd (frame_e vt80x24 grow (start_e vt80x24 quiet_world))))
        = nat (st_N (snd (frame_e vt80x24 grow (start_e vt80x24 quiet_world))))
   \<and> snd (main_p vt80x24 quiet_world [grow])
     = Running (snd (frame_p vt80x24 grow (start_p vt80x24 quiet_world)))
   \<and> st_N (snd (frame_p vt80x24 grow (start_p vt80x24 quiet_world)))
        = max ((rows0 vt80x24 * cols0 vt80x24) sdiv 20) 200
   \<and> newr grow = 60 \<and> st_rows (start_e vt80x24 quiet_world) = 24
   \<and> frame_e vt80x24 grow (start_e vt80x24 quiet_world) =
        (let (ps, v) = respawn_all_e (newc grow) (newr grow) (st_N (start_e vt80x24 quiet_world))
                         (st_P (start_e vt80x24 quiet_world)) (st_world (start_e vt80x24 quiet_world));
             s1 = (start_e vt80x24 quiet_world)
                    \<lparr>st_rows := newr grow, st_cols := newc grow, st_P := ps, st_world := v\<rparr>
         in (Clear # fst (frame_e vt80x24 grow s1), snd (frame_e vt80x24 grow s1)))
   \<and> (0::nat) < length (calloc_particles 200) \<and> (0::nat) < 200
   \<and> fst (respawn_all_e 200 60 (int 200) (calloc_particles 200) quiet_world) ! 0
        = fst (respawn_e (calloc_particles 200 ! 0) 200 60
                 (snd (respawn_all_e 200 60 (int 0) (calloc_particles 200) quiet_world)))"
proof -
  have ok: "calloc_ok vt80x24" by (simp add: vt80x24_def)
  have k: "\<not> (key grow = KEY_q \<or> key grow = KEY_Q)"
    by (simp add: grow_def KEY_q_def KEY_Q_def)
  have tg: "toggle (key grow) (start_p vt80x24 quiet_world) = start_p vt80x24 quiet_world"
    by (simp add: toggle_def grow_def KEY_r_def KEY_R_def)
  have e: "snd (main_e vt80x24 quiet_world [grow])
             = Running (snd (frame_e vt80x24 grow (start_e vt80x24 quiet_world)))"
    unfolding main_ok(1) [OF ok] run_e_step [OF k] by simp
  have p: "snd (main_p vt80x24 quiet_world [grow])
             = Running (snd (frame_p vt80x24 grow (start_p vt80x24 quiet_world)))"
    unfolding main_ok(3) [OF ok] run_p_step [OF k] tg by simp
  have g: "newr grow = 60" by (simp add: grow_def)
  have r: "st_rows (start_e vt80x24 quiet_world) = 24"
    by (simp add: start_fields vt80x24_def)
  have d: "newr grow \<noteq> st_rows (start_e vt80x24 quiet_world)
            \<or> newc grow \<noteq> st_cols (start_e vt80x24 quiet_world)"
    unfolding g r by simp
  have l: "(0::nat) < length (calloc_particles 200) \<and> (0::nat) < 200"
    by (simp add: calloc_particles_def)
  note t = swarm_size_fixed_at_start [where ev = vt80x24 and w = quiet_world and inps = "[grow]"
      and s = "snd (frame_e vt80x24 grow (start_e vt80x24 quiet_world))"
      and t = "snd (frame_p vt80x24 grow (start_p vt80x24 quiet_world))"
      and inp = grow and s' = "start_e vt80x24 quiet_world" and t' = "start_p vt80x24 quiet_world"
      and ncols = 200 and nrows = 60 and n = 200 and ps = "calloc_particles 200"
      and v = quiet_world and i = 0]
  from t e p d l g r show ?thesis by blast
qed

text \<open>
  Claim C8. When the allocation of the swarm fails, the program's calls on the terminal
  are the curses setup, which starts with \<^verbatim>\<open>initscr\<close>, followed by \<^verbatim>\<open>endwin\<close> as the last
  call, and the process exits with status 1. When the allocation succeeds and a quit
  key (\<^verbatim>\<open>q\<close> or \<^verbatim>\<open>Q\<close>) is among the keys read, the process exits with status 0 and
  \<^verbatim>\<open>endwin\<close> is its last call. No other exit status occurs.
\<close>

theorem exit_codes:
  "(\<not> calloc_ok ev \<longrightarrow>
       main_e ev w inps = (setup_green (has_colors ev) @ [Endwin], Exited 1)
     \<and> main_p ev w inps
         = ((setup_green (has_colors ev)
              @ (if has_colors ev then setup_palette (COLORS ev) else [])) @ [Endwin], Exited 1)
     \<and> hd (setup_green (has_colors ev)) = Initscr)
   \<and> (calloc_ok ev \<and> (\<exists>i\<in>set inps. key i = KEY_q \<or> key i = KEY_Q) \<longrightarrow>
       snd (main_e ev w inps) = Exited 0 \<and> last (fst (main_e ev w inps)) = Endwin
     \<and> snd (main_p ev w inps) = Exited 0 \<and> last (fst (main_p ev w inps)) = Endwin)
   \<and> (snd (main_e ev w inps) = Exited c \<longrightarrow> c = (if calloc_ok ev then 0 else 1))
   \<and> (snd (main_p ev w inps) = Exited c \<longrightarrow> c = (if calloc_ok ev then 0 else 1))"
proof -
  have a: "main_e ev w inps = (setup_green (has_colors ev) @ [Endwin], Exited 1)
     \<and> main_p ev w inps
         = ((setup_green (has_colors ev)
              @ (if has_colors ev then setup_palette (COLORS ev) else [])) @ [Endwin], Exited 1)
     \<and> hd (setup_green (has_colors ev)) = Initscr" if "\<not> calloc_ok ev"
    using main_no_memory [OF that] by (simp add: setup_green_def)
  have b: "snd (main_e ev w inps) = Exited 0 \<and> last (fst (main_e ev w inps)) = Endwin
     \<and> snd (main_p ev w inps) = Exited 0 \<and> last (fst (main_p ev w inps)) = Endwin"
    if ok: "calloc_ok ev" and q: "\<exists>i\<in>set inps. key i = KEY_q \<or> key i = KEY_Q"
    using run_e_quits [OF q, of ev "start_e ev w"] run_p_quits [OF q, of ev "start_p ev w"]
    unfolding main_ok [OF ok] by simp
  have c1: "c = (if calloc_ok ev then 0 else 1)" if x: "snd (main_e ev w inps) = Exited c"
  proof (cases "calloc_ok ev")
    case True
    with x run_e_exit_code [of ev inps "start_e ev w" c] show ?thesis
      by (simp add: main_ok)
  next
    case False
    with x show ?thesis by (simp add: main_no_memory)
  qed
  have c2: "c = (if calloc_ok ev then 0 else 1)" if x: "snd (main_p ev w inps) = Exited c"
  proof (cases "calloc_ok ev")
    case True
    with x run_p_exit_code [of ev inps "start_p ev w" c] show ?thesis
      by (simp add: main_ok)
  next
    case False
    with x show ?thesis by (simp add: main_no_memory)
  qed
  from a b c1 c2 show ?thesis by blast
qed

theorem exit_codes_witness:
  "\<not> calloc_ok no_memory
   \<and> main_e no_memory quiet_world [idle] = (setup_green (has_colors no_memory) @ [Endwin], Exited 1)
   \<and> calloc_ok vt80x24 \<and> key (press KEY_q) = KEY_q
   \<and> snd (main_e vt80x24 quiet_world [press KEY_q]) = Exited 0
   \<and> last (fst (main_e vt80x24 quiet_world [press KEY_q])) = Endwin
   \<and> snd (main_p vt80x24 quiet_world [press KEY_q]) = Exited 0"
proof -
  have n: "\<not> calloc_ok no_memory" by (simp add: no_memory_def)
  have ok: "calloc_ok vt80x24" by (simp add: vt80x24_def)
  have k: "key (press KEY_q) = KEY_q" by (simp add: press_def)
  then have q: "\<exists>i\<in>set [press KEY_q]. key i = KEY_q \<or> key i = KEY_Q" by simp
  from exit_codes [of no_memory quiet_world "[idle]" 1] n
       exit_codes [of vt80x24 quiet_world "[press KEY_q]" 0] ok q k
  show ?thesis by blast
qed

text \<open>
  Claim C9. In the file with two colour modes the mode is 0 or 1 in every state the
  program reaches. On such a state the toggle, applied twice for a key \<^verbatim>\<open>r\<close> or \<^verbatim>\<open>R\<close>,
  gives back the state it started from, and applied once flips the mode; it changes no
  other field, and for any other key it changes nothing. The rest of a loop iteration
  leaves the mode as it is, so over any run of inputs without \<^verbatim>\<open>r\<close> and \<^verbatim>\<open>R\<close> the mode
  stays what it was.
\<close>

theorem mode_toggle:
  "((c = KEY_r \<or> c = KEY_R) \<and> (st_bh_mode t = 0 \<or> st_bh_mode t = 1) \<longrightarrow>
        toggle c (toggle c t) = t \<and> st_bh_mode (toggle c t) = 1 - st_bh_mode t)
   \<and> (\<not> (c = KEY_r \<or> c = KEY_R) \<longrightarrow> toggle c t = t)
   \<and> toggle c t = t\<lparr>st_bh_mode := st_bh_mode (toggle c t)\<rparr>
   \<and> st_bh_mode (snd (frame_p ev inp t)) = st_bh_mode t
   \<and> (snd (main_p ev w inps) = Running u \<longrightarrow> st_bh_mode u = 0 \<or> st_bh_mode u = 1)
   \<and> (snd (run_p ev inps t) = Running u \<and> (\<forall>i\<in>set inps. \<not> (key i = KEY_r \<or> key i = KEY_R))
        \<longrightarrow> st_bh_mode u = st_bh_mode t)"
proof -
  have a: "toggle c (toggle c t) = t \<and> st_bh_mode (toggle c t) = 1 - st_bh_mode t"
    if "c = KEY_r \<or> c = KEY_R" and "st_bh_mode t = 0 \<or> st_bh_mode t = 1"
    using that by (auto simp: toggle_def cnot_def)
  have b: "toggle c t = t" if "\<not> (c = KEY_r \<or> c = KEY_R)"
    using that by (simp add: toggle_def)
  have b': "toggle c t = t\<lparr>st_bh_mode := st_bh_mode (toggle c t)\<rparr>"
    by (simp add: toggle_def)
  have d: "st_bh_mode u = 0 \<or> st_bh_mode u = 1" if "snd (main_p ev w inps) = Running u"
    using run_p_mode_01 [OF main_running(2) [OF that]] by (simp add: start_fields)
  have e: "st_bh_mode u = st_bh_mode t"
    if "snd (run_p ev inps t) = Running u" and "\<forall>i\<in>set inps. \<not> (key i = KEY_r \<or> key i = KEY_R)"
    using that by (rule run_p_mode_kept)
  from a b b' d e show ?thesis by (simp add: frame_p_keeps)
qed

theorem mode_toggle_witness:
  "KEY_r = KEY_r \<and> st_bh_mode (start_p vt80x24 quiet_world) = 0
   \<and> toggle KEY_r (toggle KEY_r (start_p vt80x24 quiet_world)) = start_p vt80x24 quiet_world
   \<and> st_bh_mode (toggle KEY_r (start_p vt80x24 quiet_world)) = 1
   \<and> toggle (key idle) (start_p vt80x24 quiet_world) = start_p vt80x24 quiet_world
   \<and> snd (main_p vt80x24 quiet_world []) = Running (start_p vt80x24 quiet_world)
   \<and> snd (run_p vt80x24 [idle] (start_p vt80x24 quiet_world))
       = Running (snd (frame_p vt80x24 idle (start_p vt80x24 quiet_world)))
   \<and> st_bh_mode (snd (frame_p vt80x24 idle (start_p vt80x24 quiet_world))) = 0"
proof -
  have ok: "calloc_ok vt80x24" by (simp add: vt80x24_def)
  have z: "st_bh_mode (start_p vt80x24 quiet_world) = 0" by (rule start_fields)
  have i: "\<not> (key idle = KEY_r \<or> key idle = KEY_R)"
    by (simp add: idle_def KEY_r_def KEY_R_def)
  then have i': "\<forall>i\<in>set [idle]. \<not> (key i = KEY_r \<or> key i = KEY_R)" by simp
  have q: "\<not> (key idle = KEY_q \<or> key idle = KEY_Q)"
    by (simp add: idle_def KEY_q_def KEY_Q_def)
  have m: "snd (main_p vt80x24 quiet_world []) = Running (start_p vt80x24 quiet_world)"
    unfolding main_ok(3) [OF ok] by simp
  note t1 = mode_toggle [of KEY_r "start_p vt80x24 quiet_world" vt80x24 idle quiet_world "[]"
      "start_p vt80x24 quiet_world"]
  note t2 = mode_toggle [of "key idle" "start_p vt80x24 quiet_world" vt80x24 idle quiet_world
      "[idle]" "snd (frame_p vt80x24 idle (start_p vt80x24 quiet_world))"]
  have idle_same: "toggle (key idle) (start_p vt80x24 quiet_world) = start_p vt80x24 quiet_world"
    using t2 i by blast
  have r: "snd (run_p vt80x24 [idle] (start_p vt80x24 quiet_world))
       = Running (snd (frame_p vt80x24 idle (start_p vt80x24 quiet_world)))"
    unfolding run_p_step [OF q] idle_same by simp
  from t1 z have "toggle KEY_r (toggle KEY_r (start_p vt80x24 quiet_world)) = start_p vt80x24 quiet_world
     \<and> st_bh_mode (toggle KEY_r (start_p vt80x24 quiet_world)) = 1" by simp
  moreover from t2 r i' z
  have "st_bh_mode (snd (frame_p vt80x24 idle (start_p vt80x24 quiet_world))) = 0" by simp
  ultimately show ?thesis using z idle_same m r by simp
qed


end
